theory Spec2Isabelle
  imports Complex_Main "HOL-Library.Sublist" "HOL-Library.Multiset"
begin

section \<open>Strings: the Python string operations the pipeline uses\<close>

text \<open>
  A Python \<open>str\<close> is modelled as a \<open>string\<close> whose characters are the code points
  below 256. \<open>isspace\<close> is \<open>str.isspace\<close> on one such code point: TAB, LF, VT, FF, CR,
  the separators FS, GS, RS, US, the space, NEL and the no-break space.
\<close>

definition isspace :: "char \<Rightarrow> bool" where
  "isspace c = (of_char c \<in> {9, 10, 11, 12, 13, 28, 29, 30, 31, 32, 133, 160 :: nat})"

text \<open>
  \<open>text.split()\<close> with no argument: runs of whitespace separate the words, and no empty
  word is produced. \<open>cur\<close> is the word being read.
\<close>

fun py_split_aux :: "string \<Rightarrow> string \<Rightarrow> string list" where
  "py_split_aux cur [] = (if cur = [] then [] else [cur])"
| "py_split_aux cur (c # cs) =
     (if isspace c
      then (if cur = [] then py_split_aux [] cs else cur # py_split_aux [] cs)
      else py_split_aux (cur @ [c]) cs)"

definition py_split :: "string \<Rightarrow> string list" where
  "py_split s = py_split_aux [] s"

text \<open>\<open>sep.join(ws)\<close>.\<close>

fun py_join :: "string \<Rightarrow> string list \<Rightarrow> string" where
  "py_join sep [] = []"
| "py_join sep [w] = w"
| "py_join sep (w # v # ws) = w @ sep @ py_join sep (v # ws)"

text \<open>\<open>s.strip()\<close>: leading and trailing whitespace removed.\<close>

definition py_strip :: "string \<Rightarrow> string" where
  "py_strip s = rev (dropWhile isspace (rev (dropWhile isspace s)))"

text \<open>\<open>s.upper()\<close> on the ASCII letters; the other code points are left as they are.\<close>

definition upper_char :: "char \<Rightarrow> char" where
  "upper_char c =
     (if 97 \<le> (of_char c :: nat) \<and> (of_char c :: nat) \<le> 122
      then char_of ((of_char c :: nat) - 32) else c)"

definition py_upper :: "string \<Rightarrow> string" where
  "py_upper s = map upper_char s"

section \<open>Fonts and text wrapping\<close>

text \<open>
  A font is what the code asks of it: \<open>font.getbbox(text)\<close>, the bounding box
  \<open>(left, top, right, bottom)\<close> of a text.
\<close>

type_synonym font = "string \<Rightarrow> int \<times> int \<times> int \<times> int"

definition bbox_width :: "int \<times> int \<times> int \<times> int \<Rightarrow> int" where
  "bbox_width b = (case b of (x0, y0, x1, y1) \<Rightarrow> x1 - x0)"

text \<open>
  The loop of \<open>_wrap_text\<close> over the words, carrying \<open>lines\<close> and \<open>current_line\<close>.
\<close>

fun wrap_loop :: "font \<Rightarrow> int \<Rightarrow> string list \<Rightarrow> string list \<Rightarrow> string list
    \<Rightarrow> string list \<times> string list" where
  "wrap_loop fnt max_width [] lines current_line = (lines, current_line)"
| "wrap_loop fnt max_width (word # words) lines current_line =
     (let test_line = py_join '' '' (current_line @ [word]) in
      if bbox_width (fnt test_line) \<le> max_width
      then wrap_loop fnt max_width words lines (current_line @ [word])
      else if current_line \<noteq> []
      then wrap_loop fnt max_width words (lines @ [py_join '' '' current_line]) [word]
      else wrap_loop fnt max_width words (lines @ [word]) current_line)"

definition wrap_text :: "string \<Rightarrow> font \<Rightarrow> int \<Rightarrow> string list" where
  "wrap_text text fnt max_width =
     (case wrap_loop fnt max_width (py_split text) [] [] of
        (lines, current_line) \<Rightarrow>
          if current_line \<noteq> [] then lines @ [py_join '' '' current_line] else lines)"

text \<open>A word is a non-empty string without whitespace.\<close>

definition is_word :: "string \<Rightarrow> bool" where
  "is_word w = (w \<noteq> [] \<and> list_all (\<lambda>c. \<not> isspace c) w)"

section \<open>Exceptions, configuration and the environment\<close>

text \<open>
  The exceptions the model distinguishes: the ones Python itself raises in this code
  (a division by zero, a missing dictionary key), the \<open>ValueError\<close> of
  \<open>Image.new\<close> on a negative size, and \<open>LibraryError\<close> for an exception raised inside
  a library call (Pillow, moviepy, gTTS, pydub, streamlit, the file system).
\<close>

datatype exn = ZeroDivisionError | KeyError | ValueError | LibraryError

record VideoConfig =
  resolution :: "int \<times> int"
  fps :: int
  video_codec :: string
  audio_codec :: string
  preset :: string
  crf :: int
  max_slide_duration :: real
  min_slide_duration :: real
  fade_duration :: real
  background_music :: bool
  watermark :: bool
  subtitle_support :: bool

text \<open>The defaults of the dataclass. Python floats are modelled as reals.\<close>

definition default_config :: VideoConfig where
  "default_config =
     \<lparr>resolution = (1920, 1080), fps = 30, video_codec = ''libx264'', audio_codec = ''aac'',
      preset = ''medium'', crf = 23, max_slide_duration = 20, min_slide_duration = 3,
      fade_duration = 1 / 2, background_music = False, watermark = True,
      subtitle_support = True\<rparr>"

record SlideMetrics =
  total_slides :: int
  processed_slides :: int
  failed_slides :: int
  total_duration :: real
  file_size_mb :: real
  generation_time :: real

text \<open>A slide is a dictionary; the pipeline reads the keys \<open>title\<close> and \<open>content\<close>.\<close>

type_synonym slide = "string \<rightharpoonup> string"

type_synonym bbox = "int \<times> int \<times> int \<times> int"

datatype font_handle = FreeTypeFont string int | DefaultFont

text \<open>
  The \<open>company_logo\<close> argument is of type \<open>Any\<close>: \<open>None\<close>, a path, an image (an
  object with a \<open>save\<close> attribute, of some size), or any other object.
\<close>

datatype logo = LogoNone | LogoPath string | LogoImage "int \<times> int" | LogoOther

text \<open>
  The library calls that the model lets raise, one name per call site. \<open>ShowProgress k\<close>
  is the \<open>k\<close>-th call site of \<open>_show_progress\<close> in
  \<open>create_professional_placement_video\<close>.
\<close>

datatype step =
    ConvertLogo | PasteLogo | UnsharpMask | EnhanceContrast | EnhanceColor
  | NewTempPng | SavePng | AudioVolume | MakeImageClip | FadeIn | FadeOut | Volumex | SetAudio
  | FallbackImageClip | FallbackFadeIn | FallbackFadeOut
  | SilentImageClip | SilentFadeIn | SilentFadeOut
  | ShowProgress nat | Concatenate | Resize | NewTempMp4 | WriteVideofile | CloseClips
  | ShowMetrics

text \<open>
  The environment of a run: what the libraries and the operating system answer. A call
  that may raise is either a function into \<open>exn + result\<close> of its arguments, or a
  question \<open>raises step n\<close> asked with the number \<open>n\<close> of the slide at work (0 where
  the code has no slide number at hand). \<open>installed\<close> is \<open>os.path.exists\<close> on the
  files that are there before the run (fonts, a logo file); the files the run creates
  are in the state, below. \<open>extract_company_logo\<close>, a network request with a generated
  logo as fallback, is part of the environment: it returns a logo or raises.
  \<open>completion_order n\<close> is the order in which \<open>as_completed\<close> yields the \<open>n\<close>
  futures, as slide indices.
\<close>

record env =
  video_libs_available :: bool
  installed :: "string \<Rightarrow> bool"
  truetype_raises :: "string \<Rightarrow> int \<Rightarrow> bool"
  getbbox :: "font_handle \<Rightarrow> string \<Rightarrow> bbox"
  textbbox :: "string \<Rightarrow> font_handle \<Rightarrow> exn + bbox"
  open_image :: "string \<Rightarrow> exn + int \<times> int"
  thumbnail :: "int \<times> int \<Rightarrow> int \<times> int \<Rightarrow> exn + int \<times> int"
  raises :: "step \<Rightarrow> int \<Rightarrow> bool"
  png_name :: "int \<Rightarrow> string"
  speech :: "string \<Rightarrow> string \<Rightarrow> real \<Rightarrow> exn + string"
  audio_duration :: "string \<Rightarrow> exn + real"
  extract_company_logo :: "string \<Rightarrow> exn + logo"
  completion_order :: "nat \<Rightarrow> nat list"
  mp4_name :: string
  elapsed :: real
  getsize :: "string \<Rightarrow> real"
  unlink_fails :: "string \<Rightarrow> bool"

section \<open>The slide renderer\<close>

text \<open>
  An image is its size and the drawing operations applied to it, in order. Of the
  drawing primitives of Pillow, \<open>draw.line\<close>, \<open>draw.text\<close> and
  \<open>ImageFont.load_default\<close> are taken to return normally; \<open>draw.rectangle\<close>
  raises on corners in the wrong order, see \<open>draw_rectangle\<close> below.
\<close>

datatype draw_op =
    DrawLine "(int \<times> int) list" "int list" int
  | DrawRectangle "(int \<times> int) list" "int list"
  | DrawText "int \<times> int" string font_handle "int list"
  | Paste "int \<times> int" "int \<times> int"
  | FilterUnsharpMask int int int
  | Contrast real
  | Color real

record image =
  img_size :: "int \<times> int"
  img_ops :: "draw_op list"

definition Image_new :: "int \<times> int \<Rightarrow> exn + image" where
  "Image_new sz =
     (if fst sz < 0 \<or> snd sz < 0 then Inl ValueError
      else Inr \<lparr>img_size = sz, img_ops = []\<rparr>)"

definition draw :: "draw_op list \<Rightarrow> image \<Rightarrow> image" where
  "draw new_ops img = img\<lparr>img_ops := img_ops img @ new_ops\<rparr>"

text \<open>
  \<open>draw.rectangle([(x0, y0), (x1, y1)], fill)\<close>. Pillow (from version 9.5 on) raises
  \<open>ValueError\<close> when \<open>x1 < x0\<close> or \<open>y1 < y0\<close>.
\<close>

definition draw_rectangle :: "int \<times> int \<Rightarrow> int \<times> int \<Rightarrow> int list \<Rightarrow> image \<Rightarrow> exn + image" where
  "draw_rectangle p0 p1 fill img =
     (if fst p1 < fst p0 \<or> snd p1 < snd p0 then Inl ValueError
      else Inr (draw [DrawRectangle [p0, p1] fill] img))"

text \<open>\<open>int(x)\<close> on a float: truncation towards zero.\<close>

definition py_int :: "real \<Rightarrow> int" where
  "py_int x = (if 0 \<le> x then \<lfloor>x\<rfloor> else \<lceil>x\<rceil>)"

text \<open>\<open>range(start, stop, step)\<close> for a positive step.\<close>

function py_range :: "int \<Rightarrow> int \<Rightarrow> int \<Rightarrow> int list" where
  "py_range start stop stp =
     (if 0 < stp \<and> start < stop then start # py_range (start + stp) stop stp else [])"
  by pat_completeness auto
termination
  by (relation "measure (\<lambda>(start, stop, stp). nat (stop - start))") auto

declare py_range.simps [simp del]

text \<open>
  The gradient loop shared by three templates: one line per row \<open>y\<close>, coloured by
  \<open>y / height\<close>.
\<close>

definition gradient :: "int \<Rightarrow> int \<Rightarrow> (real \<Rightarrow> int list) \<Rightarrow> draw_op list" where
  "gradient width height colour =
     map (\<lambda>y. DrawLine [(0, y), (width, y)] (colour (real_of_int y / real_of_int height)) 0)
       (py_range 0 height 1)"

definition add_geometric_patterns :: "int \<Rightarrow> int \<Rightarrow> int list \<Rightarrow> draw_op list" where
  "add_geometric_patterns width height color =
     map (\<lambda>x. DrawLine [(x, 0), (x + height, height)] color 1) (py_range (- height) width 100)"

definition apply_corporate_template :: "int \<Rightarrow> int \<Rightarrow> image \<Rightarrow> image" where
  "apply_corporate_template width height img =
     draw (gradient width height
             (\<lambda>f. [py_int (25 + 70 * f), py_int (50 + 120 * f), py_int (100 + 155 * f)])
           @ add_geometric_patterns width height [255, 255, 255, 30]) img"

definition apply_modern_template :: "int \<Rightarrow> int \<Rightarrow> image \<Rightarrow> image" where
  "apply_modern_template width height img =
     draw (gradient width height
             (\<lambda>f. [py_int (45 + 155 * f), py_int (25 + 200 * f), py_int (85 + 170 * f)])
           @ map (\<lambda>i. DrawLine [(i, 0), (i + 100, height)] [255, 255, 255, 100] 2)
               (py_range 0 width 150)) img"

definition apply_minimalist_template :: "int \<Rightarrow> int \<Rightarrow> image \<Rightarrow> exn + image" where
  "apply_minimalist_template width height img =
     (case draw_rectangle (0, 0) (width, height) [248, 249, 250] img of
        Inl x \<Rightarrow> Inl x
      | Inr img1 \<Rightarrow>
          let accent_height = height div 20 in
          draw_rectangle (0, 0) (width, accent_height) [59, 130, 246] img1)"

definition apply_default_template :: "int \<Rightarrow> int \<Rightarrow> image \<Rightarrow> image" where
  "apply_default_template width height img =
     draw (gradient width height
             (\<lambda>f. let gray = py_int (240 - 40 * f) in [gray, gray, gray])) img"

text \<open>
  \<open>_get_font\<close>: the candidate paths are probed in order; a candidate that does not
  exist, or whose loading raises, is passed over; the built-in font is the fallback.
\<close>

definition font_paths :: "string list" where
  "font_paths =
     [''/System/Library/Fonts/Arial.ttf'',
      ''/usr/share/fonts/truetype/dejavu/DejaVuSans-Bold.ttf'',
      ''C:/Windows/Fonts/arial.ttf'']"

fun probe_fonts :: "env \<Rightarrow> int \<Rightarrow> string list \<Rightarrow> font_handle" where
  "probe_fonts e base_size [] = DefaultFont"
| "probe_fonts e base_size (font_path # rest) =
     (if installed e font_path
      then (if truetype_raises e font_path base_size then probe_fonts e base_size rest
            else FreeTypeFont font_path base_size)
      else probe_fonts e base_size rest)"

definition get_font :: "env \<Rightarrow> string \<Rightarrow> int \<Rightarrow> font_handle" where
  "get_font e font_type width =
     (let base_size = (if font_type = ''title'' then width div 25 else width div 35)
      in probe_fonts e base_size font_paths)"

text \<open>
  \<open>_draw_text_with_shadow\<close>: the text is measured first; if that raises nothing has
  been drawn.
\<close>

definition draw_text_with_shadow ::
  "env \<Rightarrow> image \<Rightarrow> string \<Rightarrow> font_handle \<Rightarrow> int \<Rightarrow> int \<Rightarrow> string \<Rightarrow> int list \<Rightarrow> int list
    \<Rightarrow> exn + image" where
  "draw_text_with_shadow e img text fnt width y align text_color shadow_color =
     (case textbbox e text fnt of
        Inl x \<Rightarrow> Inl x
      | Inr b \<Rightarrow>
          let text_width = bbox_width b;
              x = (if align = ''center'' then (width - text_width) div 2
                   else if align = ''right'' then width - text_width - 50
                   else 50);
              shadow_offset = 3
          in Inr (draw [DrawText (x + shadow_offset, y + shadow_offset) text fnt
                          (take 3 shadow_color),
                        DrawText (x, y) text fnt text_color] img))"

text \<open>
  \<open>_add_company_logo\<close>. The whole body is inside \<open>try\<close>; the image is changed only
  by the final \<open>paste\<close>, so an exception leaves it as it was.
\<close>

definition add_company_logo_body ::
  "env \<Rightarrow> image \<Rightarrow> logo \<Rightarrow> int \<Rightarrow> int \<Rightarrow> exn + image" where
  "add_company_logo_body e img lg width height =
     (case (case lg of
              LogoPath p \<Rightarrow>
                (if installed e p
                 then (case open_image e p of Inl x \<Rightarrow> Inl x | Inr sz \<Rightarrow> Inr (Some sz))
                 else Inr None)
            | LogoImage sz \<Rightarrow> Inr (Some sz)
            | LogoNone \<Rightarrow> Inr None
            | LogoOther \<Rightarrow> Inr None) of
        Inl x \<Rightarrow> Inl x
      | Inr None \<Rightarrow> Inr img
      | Inr (Some sz) \<Rightarrow>
          let logo_size = min (width div 8) (height div 8) in
          if raises e ConvertLogo 0 then Inl LibraryError
          else (case thumbnail e sz (logo_size, logo_size) of
                  Inl x \<Rightarrow> Inl x
                | Inr tsz \<Rightarrow>
                    let logo_x = width - fst tsz - 50; logo_y = 50 in
                    if raises e PasteLogo 0 then Inl LibraryError
                    else Inr (draw [Paste tsz (logo_x, logo_y)] img)))"

definition add_company_logo :: "env \<Rightarrow> image \<Rightarrow> logo \<Rightarrow> int \<Rightarrow> int \<Rightarrow> image" where
  "add_company_logo e img lg width height =
     (case add_company_logo_body e img lg width height of
        Inl x \<Rightarrow> img
      | Inr img' \<Rightarrow> img')"

text \<open>
  The loop of \<open>_add_slide_content\<close> over the wrapped lines. An exception stops it; the
  lines drawn so far stay on the image.
\<close>

fun draw_content_lines ::
  "env \<Rightarrow> font_handle \<Rightarrow> int \<Rightarrow> int \<Rightarrow> int \<Rightarrow> (nat \<times> string) list \<Rightarrow> image
    \<Rightarrow> exn option \<times> image" where
  "draw_content_lines e content_font width height content_y [] img = (None, img)"
| "draw_content_lines e content_font width height content_y ((i, line) # rest) img =
     (let line_y = content_y + int i * 80 in
      if line_y < height - 100
      then (case draw_text_with_shadow e img line content_font width line_y ''center''
                   [255, 255, 255] [0, 0, 0, 100] of
              Inl x \<Rightarrow> (Some x, img)
            | Inr img' \<Rightarrow>
                draw_content_lines e content_font width height content_y rest img')
      else draw_content_lines e content_font width height content_y rest img)"

text \<open>\<open>slide.get(key, default)\<close>.\<close>

definition slide_get :: "slide \<Rightarrow> string \<Rightarrow> string \<Rightarrow> string" where
  "slide_get sl key dflt = (case sl key of None \<Rightarrow> dflt | Some v \<Rightarrow> v)"

definition add_slide_content_body ::
  "env \<Rightarrow> image \<Rightarrow> slide \<Rightarrow> int \<Rightarrow> int \<Rightarrow> exn option \<times> image" where
  "add_slide_content_body e img sl width height =
     (let title_font = get_font e ''title'' width;
          content_font = get_font e ''content'' width;
          title = py_strip (slide_get sl ''title'' [])
      in case (if title \<noteq> []
               then draw_text_with_shadow e img title title_font width (height div 6)
                      ''center'' [255, 255, 255] [0, 0, 0, 128]
               else Inr img) of
           Inl x \<Rightarrow> (Some x, img)
         | Inr img1 \<Rightarrow>
             let content = py_strip (slide_get sl ''content'' []) in
             if content \<noteq> []
             then draw_content_lines e content_font width height (height div 3)
                    (enumerate 0 (wrap_text content (getbbox e content_font) (width - 200)))
                    img1
             else (None, img1))"

text \<open>\<open>_add_slide_content\<close>: the exception, if any, is logged and dropped.\<close>

definition add_slide_content :: "env \<Rightarrow> image \<Rightarrow> slide \<Rightarrow> int \<Rightarrow> int \<Rightarrow> image" where
  "add_slide_content e img sl width height = snd (add_slide_content_body e img sl width height)"

text \<open>\<open>str(n)\<close> for an integer, as the f-string of the slide number prints it.\<close>

function str_nat :: "nat \<Rightarrow> string" where
  "str_nat n =
     (if n < 10 then [char_of (48 + n)] else str_nat (n div 10) @ [char_of (48 + n mod 10)])"
  by pat_completeness auto
termination
  by (relation "measure (\<lambda>n. n)") auto

declare str_nat.simps [simp del]

definition str_int :: "int \<Rightarrow> string" where
  "str_int i = (if i < 0 then CHR ''-'' # str_nat (nat (- i)) else str_nat (nat i))"

text \<open>
  \<open>_add_slide_metadata\<close> has no \<open>try\<close>. The bar of the progress indicator is a
  rectangle from \<open>x = 50\<close> to \<open>x = 50 + (width - 100)\<close>, which raises on a canvas
  narrower than 100; the division \<open>slide_num / total_slides\<close> raises when
  \<open>total_slides\<close> is zero; the filled part is a rectangle of width \<open>fill_width\<close>,
  which raises when that is negative.
\<close>

definition add_slide_metadata ::
  "env \<Rightarrow> image \<Rightarrow> int \<Rightarrow> int \<Rightarrow> int \<Rightarrow> int \<Rightarrow> exn + image" where
  "add_slide_metadata e img slide_num total_slides' width height =
     (let progress_width = width - 100;
          progress_height = 8;
          progress_x = 50;
          progress_y = height - 60
      in case draw_rectangle (progress_x, progress_y)
                (progress_x + progress_width, progress_y + progress_height)
                [200, 200, 200] img of
           Inl x \<Rightarrow> Inl x
         | Inr img1 \<Rightarrow>
             if total_slides' = 0 then Inl ZeroDivisionError
             else
               let fill_width = py_int ((real_of_int slide_num / real_of_int total_slides')
                                          * real_of_int progress_width)
               in case draw_rectangle (progress_x, progress_y)
                         (progress_x + fill_width, progress_y + progress_height)
                         [59, 130, 246] img1 of
                    Inl x \<Rightarrow> Inl x
                  | Inr img2 \<Rightarrow>
                      let slide_text = str_int slide_num @ '' / '' @ str_int total_slides';
                          fnt = get_font e ''content'' width
                      in Inr (draw [DrawText (progress_x, progress_y - 30) slide_text fnt
                                      [100, 100, 100]] img2))"

text \<open>
  \<open>_apply_visual_effects\<close>: each effect returns a new image of the same size; an
  exception is logged and the image reached so far is returned.
\<close>

definition apply_visual_effects :: "env \<Rightarrow> image \<Rightarrow> string \<Rightarrow> image" where
  "apply_visual_effects e img template =
     (if raises e UnsharpMask 0 then img
      else
        let img1 = draw [FilterUnsharpMask 1 150 3] img in
        if raises e EnhanceContrast 0 then img1
        else
          let img2 = draw [Contrast (105 / 100)] img1 in
          if template = ''modern''
          then (if raises e EnhanceColor 0 then img2 else draw [Color (11 / 10)] img2)
          else img2)"

text \<open>Truth value of the \<open>company_logo\<close> argument in \<open>if company_logo:\<close>.\<close>

definition logo_truthy :: "logo \<Rightarrow> bool" where
  "logo_truthy lg = (case lg of LogoNone \<Rightarrow> False | LogoPath p \<Rightarrow> p \<noteq> [] | _ \<Rightarrow> True)"

text \<open>The \<open>if\<close>/\<open>elif\<close> chain of \<open>_create_enhanced_slide\<close> over the template name.\<close>

definition apply_template :: "string \<Rightarrow> int \<Rightarrow> int \<Rightarrow> image \<Rightarrow> exn + image" where
  "apply_template template width height img =
     (if template = ''corporate'' then Inr (apply_corporate_template width height img)
      else if template = ''modern'' then Inr (apply_modern_template width height img)
      else if template = ''minimalist'' then apply_minimalist_template width height img
      else Inr (apply_default_template width height img))"

definition create_enhanced_slide ::
  "env \<Rightarrow> VideoConfig \<Rightarrow> slide \<Rightarrow> string \<Rightarrow> int \<Rightarrow> int \<Rightarrow> logo \<Rightarrow> exn + image" where
  "create_enhanced_slide e cfg sl template slide_num total_slides' company_logo =
     (case resolution cfg of (width, height) \<Rightarrow>
        (case Image_new (width, height) of
           Inl x \<Rightarrow> Inl x
         | Inr img \<Rightarrow>
             (case apply_template template width height img of
                Inl x \<Rightarrow> Inl x
              | Inr img1 \<Rightarrow>
                  let img2 = (if logo_truthy company_logo
                              then add_company_logo e img1 company_logo width height
                              else img1);
                      img3 = add_slide_content e img2 sl width height
                  in (case add_slide_metadata e img3 slide_num total_slides' width height of
                        Inl x \<Rightarrow> Inl x
                      | Inr img4 \<Rightarrow> Inr (apply_visual_effects e img4 template)))))"

text \<open>
  When the renderer raises: on a negative height or a width below 100 (a negative size
  for \<open>Image.new\<close>, or the bar of the progress indicator), on \<open>total_slides = 0\<close>, and
  on a negative fill width. Lemma \<open>create_enhanced_slide_raises\<close> shows that these
  are the cases.
\<close>

definition rendering_raises :: "VideoConfig \<Rightarrow> int \<Rightarrow> int \<Rightarrow> bool" where
  "rendering_raises cfg slide_num total_slides' =
     (case resolution cfg of (width, height) \<Rightarrow>
        height < 0 \<or> width < 100 \<or> total_slides' = 0 \<or>
        py_int ((real_of_int slide_num / real_of_int total_slides')
                  * real_of_int (width - 100)) < 0)"

section \<open>The generator's state and the clip builder\<close>

text \<open>
  A clip: the rendered frame it shows, the image file it was made from, its duration,
  the fade applied at both ends, and the narration attached (file and length), if any.
\<close>

record clip =
  clip_frame :: image
  clip_source :: string
  clip_duration :: real
  clip_fade :: real
  clip_audio :: "(string \<times> real) option"

text \<open>
  The calls the claims speak about are recorded in a trace, in the order they are made:
  a call of \<open>_create_slide_video_clip\<close> (with its slide number), the creation of the
  thread pool (with \<open>max_workers\<close>), and the two calls of the exporter.
\<close>

datatype event =
    BuildClip int
  | ThreadPoolExecutor nat
  | ConcatenateVideoclips "clip list"
  | WriteVideofileCall string

text \<open>
  The state of a run: the three fields of \<open>AdvancedVideoGenerator\<close>, the files the run
  has created and not deleted, and the trace.
\<close>

record world =
  config :: VideoConfig
  metrics :: SlideMetrics
  temp_files :: "string list"
  files :: "string set"
  trace :: "event list"

definition init_world :: "VideoConfig \<Rightarrow> string set \<Rightarrow> world" where
  "init_world cfg fs =
     \<lparr>config = cfg,
      metrics = \<lparr>total_slides = 0, processed_slides = 0, failed_slides = 0,
                  total_duration = 0, file_size_mb = 0, generation_time = 0\<rparr>,
      temp_files = [], files = fs, trace = []\<rparr>"

definition add_temp_file :: "string \<Rightarrow> world \<Rightarrow> world" where
  "add_temp_file p w = w\<lparr>temp_files := temp_files w @ [p]\<rparr>"

definition count_processed :: "real \<Rightarrow> world \<Rightarrow> world" where
  "count_processed d w =
     w\<lparr>metrics := (metrics w)\<lparr>total_duration := total_duration (metrics w) + d,
                                processed_slides := processed_slides (metrics w) + 1\<rparr>\<rparr>"

definition count_failed :: "world \<Rightarrow> world" where
  "count_failed w =
     w\<lparr>metrics := (metrics w)\<lparr>failed_slides := failed_slides (metrics w) + 1\<rparr>\<rparr>"

definition record_event :: "event \<Rightarrow> world \<Rightarrow> world" where
  "record_event ev w = w\<lparr>trace := trace w @ [ev]\<rparr>"

text \<open>
  \<open>_cleanup_temp_files\<close>: every registered path that exists is unlinked; a failing
  \<open>unlink\<close> is logged and the file stays; the registry is cleared.
\<close>

fun cleanup_loop :: "env \<Rightarrow> string list \<Rightarrow> string set \<Rightarrow> string set" where
  "cleanup_loop e [] fs = fs"
| "cleanup_loop e (temp_file # rest) fs =
     cleanup_loop e rest
       (if temp_file \<in> fs \<and> \<not> unlink_fails e temp_file then fs - {temp_file} else fs)"

definition cleanup_temp_files :: "env \<Rightarrow> world \<Rightarrow> world" where
  "cleanup_temp_files e w = w\<lparr>files := cleanup_loop e (temp_files w) (files w), temp_files := []\<rparr>"

text \<open>\<open>s.replace(old, new)\<close> for a non-empty \<open>old\<close>, the only use the code makes.\<close>

function py_replace :: "string \<Rightarrow> string \<Rightarrow> string \<Rightarrow> string" where
  "py_replace old new s =
     (case s of
        [] \<Rightarrow> []
      | c # cs \<Rightarrow>
          if old \<noteq> [] \<and> take (length old) s = old
          then new @ py_replace old new (drop (length old) s)
          else c # py_replace old new cs)"
  by pat_completeness auto
termination
  by (relation "measure (\<lambda>(old, new, s). length s)") auto

declare py_replace.simps [simp del]

text \<open>
  \<open>enhanced_text_to_speech\<close>. The chain gTTS, pydub, export is the environment's
  \<open>speech\<close>: it raises, or it returns the path of the enhanced audio file, which then
  exists. Files that a failing chain leaves behind are not tracked.
\<close>

definition enhanced_text_to_speech ::
  "env \<Rightarrow> string \<Rightarrow> string \<Rightarrow> real \<Rightarrow> world \<Rightarrow> string option \<times> world" where
  "enhanced_text_to_speech e text lang speed_factor w =
     (let clean_text =
            py_strip (py_replace '':'' ''.'' (py_replace '']'' [] (py_replace ''[SLIDE'' [] text)))
      in if clean_text = [] then (None, w)
         else (case speech e clean_text (takeWhile (\<lambda>c. c \<noteq> CHR ''-'') lang) speed_factor of
                 Inl x \<Rightarrow> (None, w)
               | Inr enhanced_path \<Rightarrow>
                   (Some enhanced_path, w\<lparr>files := insert enhanced_path (files w)\<rparr>)))"

text \<open>\<open>_process_slide_audio\<close>; a slide without the key \<open>content\<close> raises inside the \<open>try\<close>.\<close>

definition process_slide_audio ::
  "env \<Rightarrow> slide \<Rightarrow> string \<Rightarrow> real \<Rightarrow> world \<Rightarrow> string option \<times> world" where
  "process_slide_audio e sl tts_lang speed_factor w =
     (case sl ''content'' of
        None \<Rightarrow> (None, w)
      | Some content \<Rightarrow>
          (case enhanced_text_to_speech e content tts_lang speed_factor w of
             (None, w1) \<Rightarrow> (None, w1)
           | (Some audio_file_path, w1) \<Rightarrow>
               if audio_file_path \<noteq> [] \<and> audio_file_path \<in> files w1
               then (Some audio_file_path, add_temp_file audio_file_path w1)
               else (None, w1)))"

text \<open>
  The inner \<open>try\<close> of \<open>_create_slide_video_clip\<close>: the clip with narration. Every
  call in it may raise.
\<close>

definition narrated_clip ::
  "env \<Rightarrow> VideoConfig \<Rightarrow> int \<Rightarrow> string \<Rightarrow> image \<Rightarrow> string \<Rightarrow> exn + clip" where
  "narrated_clip e cfg slide_num png img audio_file_path =
     (case audio_duration e audio_file_path of
        Inl x \<Rightarrow> Inl x
      | Inr d \<Rightarrow>
          if raises e AudioVolume slide_num then Inl LibraryError
          else
            let duration = max (min (d + 1) (max_slide_duration cfg)) (min_slide_duration cfg) in
            if raises e MakeImageClip slide_num then Inl LibraryError
            else if raises e FadeIn slide_num then Inl LibraryError
            else if raises e FadeOut slide_num then Inl LibraryError
            else if raises e Volumex slide_num then Inl LibraryError
            else if raises e SetAudio slide_num then Inl LibraryError
            else Inr \<lparr>clip_frame = img, clip_source = png, clip_duration = duration,
                       clip_fade = fade_duration cfg,
                       clip_audio = Some (audio_file_path, d)\<rparr>)"

text \<open>
  The silent clip, built in two places: in the handler of the inner \<open>try\<close> and in the
  \<open>else\<close> branch. The three steps name the call sites.
\<close>

definition silent_clip ::
  "env \<Rightarrow> VideoConfig \<Rightarrow> int \<Rightarrow> string \<Rightarrow> image \<Rightarrow> step \<Rightarrow> step \<Rightarrow> step \<Rightarrow> exn + clip" where
  "silent_clip e cfg slide_num png img make_clip fade_in fade_out =
     (let duration = min_slide_duration cfg in
      if raises e make_clip slide_num then Inl LibraryError
      else if raises e fade_in slide_num then Inl LibraryError
      else if raises e fade_out slide_num then Inl LibraryError
      else Inr \<lparr>clip_frame = img, clip_source = png, clip_duration = duration,
                 clip_fade = fade_duration cfg, clip_audio = None\<rparr>)"

text \<open>The outer \<open>try\<close> block: its result or its exception, and the state reached.\<close>

definition create_slide_video_clip_body ::
  "env \<Rightarrow> slide \<Rightarrow> string \<Rightarrow> int \<Rightarrow> int \<Rightarrow> logo \<Rightarrow> string \<Rightarrow> real \<Rightarrow> world
    \<Rightarrow> (exn + clip) \<times> world" where
  "create_slide_video_clip_body e sl template slide_num total_slides' company_logo tts_lang
       speed_factor w =
     (case create_enhanced_slide e (config w) sl template slide_num total_slides'
             company_logo of
        Inl x \<Rightarrow> (Inl x, w)
      | Inr slide_img \<Rightarrow>
          if raises e NewTempPng slide_num then (Inl LibraryError, w)
          else
            let png = png_name e slide_num;
                w1 = w\<lparr>files := insert png (files w)\<rparr>
            in if raises e SavePng slide_num then (Inl LibraryError, w1)
               else
                 (case process_slide_audio e sl tts_lang speed_factor (add_temp_file png w1) of
                    (audio, w2) \<Rightarrow>
                      let silent = (\<lambda>s1 s2 s3.
                            case silent_clip e (config w2) slide_num png slide_img s1 s2 s3 of
                              Inl x \<Rightarrow> (Inl x, w2)
                            | Inr c \<Rightarrow> (Inr c, count_processed (clip_duration c) w2))
                      in (case audio of
                            None \<Rightarrow> silent SilentImageClip SilentFadeIn SilentFadeOut
                          | Some audio_file_path \<Rightarrow>
                              if audio_file_path \<noteq> [] \<and> audio_file_path \<in> files w2
                              then (case narrated_clip e (config w2) slide_num png slide_img
                                           audio_file_path of
                                      Inr c \<Rightarrow> (Inr c, count_processed (clip_duration c) w2)
                                    | Inl audio_error \<Rightarrow>
                                        silent FallbackImageClip FallbackFadeIn FallbackFadeOut)
                              else silent SilentImageClip SilentFadeIn SilentFadeOut)))"

text \<open>
  \<open>_create_slide_video_clip\<close>: the handler of the outer \<open>try\<close> counts the failure and
  returns \<open>None\<close>.
\<close>

definition create_slide_video_clip ::
  "env \<Rightarrow> slide \<Rightarrow> string \<Rightarrow> int \<Rightarrow> int \<Rightarrow> logo \<Rightarrow> string \<Rightarrow> real \<Rightarrow> world
    \<Rightarrow> clip option \<times> world" where
  "create_slide_video_clip e sl template slide_num total_slides' company_logo tts_lang
       speed_factor w =
     (case create_slide_video_clip_body e sl template slide_num total_slides' company_logo
             tts_lang speed_factor (record_event (BuildClip slide_num) w) of
        (Inl x, w1) \<Rightarrow> (None, count_failed w1)
      | (Inr c, w1) \<Rightarrow> (Some c, w1))"

section \<open>The coordinator: \<open>create_professional_placement_video\<close>\<close>

text \<open>
  The parallel branch. The futures complete in some order, a list of slide indices;
  the loop over \<open>as_completed\<close> takes them in that order. A worker's effects on the
  generator are applied when its future is taken, so the workers are serialised in
  completion order (the races between workers on the counters are not modelled). The
  worker catches every exception, so \<open>future.result()\<close> does not raise; the progress
  report after it may, and the loop's handler then counts a failure.
\<close>

fun collect_completed ::
  "env \<Rightarrow> slide list \<Rightarrow> string \<Rightarrow> logo \<Rightarrow> string \<Rightarrow> real \<Rightarrow> nat list \<Rightarrow> (nat \<times> clip) list
    \<Rightarrow> world \<Rightarrow> (nat \<times> clip) list \<times> world" where
  "collect_completed e slides template company_logo tts_lang speed_factor [] video_clips w =
     (video_clips, w)"
| "collect_completed e slides template company_logo tts_lang speed_factor (slide_idx # rest)
       video_clips w =
     (if slide_idx < length slides
      then (case create_slide_video_clip e (slides ! slide_idx) template (int slide_idx + 1)
                   (int (length slides)) company_logo tts_lang speed_factor w of
              (r, w1) \<Rightarrow>
                let video_clips1 =
                      (case r of Some c \<Rightarrow> video_clips @ [(slide_idx, c)] | None \<Rightarrow> video_clips)
                in if raises e (ShowProgress 3) (int slide_idx + 1)
                   then collect_completed e slides template company_logo tts_lang speed_factor
                          rest video_clips1 (count_failed w1)
                   else collect_completed e slides template company_logo tts_lang speed_factor
                          rest video_clips1 w1)
      else collect_completed e slides template company_logo tts_lang speed_factor rest
             video_clips w)"

text \<open>The pool, the collection, then the sort by slide index and the removal of the tags.\<close>

definition process_parallel ::
  "env \<Rightarrow> nat \<Rightarrow> slide list \<Rightarrow> string \<Rightarrow> logo \<Rightarrow> string \<Rightarrow> real \<Rightarrow> world
    \<Rightarrow> (exn + clip list) \<times> world" where
  "process_parallel e max_workers slides template company_logo tts_lang speed_factor w =
     (if raises e (ShowProgress 2) 0 then (Inl LibraryError, w)
      else
        (case collect_completed e slides template company_logo tts_lang speed_factor
                (completion_order e (length slides)) []
                (record_event (ThreadPoolExecutor max_workers) w) of
           (video_clips, w1) \<Rightarrow> (Inr (map snd (sort_key fst video_clips)), w1)))"

text \<open>The sequential branch, over \<open>enumerate(slides)\<close>.\<close>

fun process_sequential ::
  "env \<Rightarrow> int \<Rightarrow> string \<Rightarrow> logo \<Rightarrow> string \<Rightarrow> real \<Rightarrow> (nat \<times> slide) list \<Rightarrow> clip list
    \<Rightarrow> world \<Rightarrow> (exn + clip list) \<times> world" where
  "process_sequential e len_slides template company_logo tts_lang speed_factor [] video_clips w =
     (Inr video_clips, w)"
| "process_sequential e len_slides template company_logo tts_lang speed_factor ((i, sl) # rest)
       video_clips w =
     (if raises e (ShowProgress 4) (int i + 1) then (Inl LibraryError, w)
      else (case create_slide_video_clip e sl template (int i + 1) len_slides company_logo
                   tts_lang speed_factor w of
              (r, w1) \<Rightarrow>
                process_sequential e len_slides template company_logo tts_lang speed_factor rest
                  (case r of Some c \<Rightarrow> video_clips @ [c] | None \<Rightarrow> video_clips) w1))"

text \<open>
  The decision between the two branches, \<open>parallel_processing and len(slides) > 3\<close>,
  with the width \<open>min(4, len(slides))\<close> of the pool.
\<close>

datatype schedule = WorkerPool nat | Sequential

definition assembly_schedule :: "bool \<Rightarrow> slide list \<Rightarrow> schedule" where
  "assembly_schedule parallel_processing slides =
     (if parallel_processing \<and> length slides > 3 then WorkerPool (min 4 (length slides))
      else Sequential)"

definition process_slides ::
  "env \<Rightarrow> slide list \<Rightarrow> string \<Rightarrow> logo \<Rightarrow> string \<Rightarrow> real \<Rightarrow> bool \<Rightarrow> world
    \<Rightarrow> (exn + clip list) \<times> world" where
  "process_slides e slides template company_logo tts_lang speed_factor parallel_processing w =
     (case assembly_schedule parallel_processing slides of
        WorkerPool max_workers \<Rightarrow>
          process_parallel e max_workers slides template company_logo tts_lang speed_factor w
      | Sequential \<Rightarrow>
          process_sequential e (int (length slides)) template company_logo tts_lang
            speed_factor (enumerate 0 slides) [] w)"

text \<open>
  The export: from the test for an empty clip list to the \<open>return\<close> of the output
  path. The temporary output file exists from \<open>NamedTemporaryFile\<close> on; it is never
  put into \<open>temp_files\<close>.
\<close>

definition export_video :: "env \<Rightarrow> clip list \<Rightarrow> world \<Rightarrow> (exn + string option) \<times> world" where
  "export_video e video_clips w =
     (if video_clips = [] then (Inr None, w)
      else if raises e (ShowProgress 5) 0 then (Inl LibraryError, w)
      else
        let w1 = record_event (ConcatenateVideoclips video_clips) w in
        if raises e Concatenate 0 then (Inl LibraryError, w1)
        else if resolution (config w1) \<noteq> (1920, 1080) \<and> raises e Resize 0
        then (Inl LibraryError, w1)
        else if raises e (ShowProgress 6) 0 then (Inl LibraryError, w1)
        else if raises e (ShowProgress 7) 0 then (Inl LibraryError, w1)
        else if raises e NewTempMp4 0 then (Inl LibraryError, w1)
        else
          let tmp_video = mp4_name e;
              w2 = record_event (WriteVideofileCall tmp_video)
                     (w1\<lparr>files := insert tmp_video (files w1)\<rparr>)
          in if raises e WriteVideofile 0 then (Inl LibraryError, w2)
             else
               let w3 = w2\<lparr>metrics := (metrics w2)\<lparr>generation_time := elapsed e\<rparr>\<rparr>;
                   w4 = (if tmp_video \<in> files w3
                         then w3\<lparr>metrics := (metrics w3)
                                 \<lparr>file_size_mb := getsize e tmp_video / (1024 * 1024)\<rparr>\<rparr>
                         else w3)
               in if raises e (ShowProgress 8) 0 then (Inl LibraryError, w4)
                  else if raises e CloseClips 0 then (Inl LibraryError, w4)
                  else
                    let w5 = cleanup_temp_files e w4 in
                    if raises e ShowMetrics 0 then (Inl LibraryError, w5)
                    else (Inr (Some tmp_video), w5))"

text \<open>The \<open>try\<close> block of the coordinator.\<close>

definition video_body ::
  "env \<Rightarrow> slide list \<Rightarrow> string \<Rightarrow> string \<Rightarrow> string \<Rightarrow> real \<Rightarrow> bool \<Rightarrow> world
    \<Rightarrow> (exn + string option) \<times> world" where
  "video_body e slides company_name template tts_lang speed_factor parallel_processing w =
     (let w0 = w\<lparr>metrics := (metrics w)\<lparr>total_slides := int (length slides)\<rparr>\<rparr> in
      if raises e (ShowProgress 0) 0 then (Inl LibraryError, w0)
      else (case extract_company_logo e company_name of
              Inl x \<Rightarrow> (Inl x, w0)
            | Inr company_logo \<Rightarrow>
                if raises e (ShowProgress 1) 0 then (Inl LibraryError, w0)
                else (case process_slides e slides template company_logo tts_lang speed_factor
                             parallel_processing w0 of
                        (Inl x, w1) \<Rightarrow> (Inl x, w1)
                      | (Inr video_clips, w1) \<Rightarrow> export_video e video_clips w1)))"

text \<open>
  \<open>create_professional_placement_video\<close>. It is given the files that exist before the
  run and returns the output path, or \<open>None\<close>, with the state at the end. The two early
  returns come before the generator is made; the handler of the \<open>try\<close> cleans the
  registered files up and returns \<open>None\<close>.
\<close>

definition create_professional_placement_video ::
  "env \<Rightarrow> slide list \<Rightarrow> string \<Rightarrow> string \<Rightarrow> string \<Rightarrow> real \<Rightarrow> VideoConfig option \<Rightarrow> bool
    \<Rightarrow> string set \<Rightarrow> string option \<times> world" where
  "create_professional_placement_video e slides company_name template tts_lang speed_factor
       cfg parallel_processing fs =
     (let w = init_world (case cfg of None \<Rightarrow> default_config | Some c \<Rightarrow> c) fs in
      if \<not> video_libs_available e then (None, w)
      else if slides = [] then (None, w)
      else (case video_body e slides company_name template tts_lang speed_factor
                   parallel_processing w of
              (Inl x, w1) \<Rightarrow> (None, cleanup_temp_files e w1)
            | (Inr r, w1) \<Rightarrow> (r, w1)))"

section \<open>A concrete environment and a concrete slide\<close>

text \<open>
  An environment in which no library call raises, no font file is installed, every
  narration lasts ten seconds and the futures complete in reverse order.
\<close>

definition quiet_env :: env where
  "quiet_env =
     \<lparr>video_libs_available = True,
      installed = (\<lambda>p. False),
      truetype_raises = (\<lambda>p n. False),
      getbbox = (\<lambda>f s. (0, 0, 10 * int (length s), 10)),
      textbbox = (\<lambda>s f. Inr (0, 0, 10 * int (length s), 10)),
      open_image = (\<lambda>p. Inr (200, 200)),
      thumbnail = (\<lambda>sz bound. Inr bound),
      raises = (\<lambda>s n. False),
      png_name = (\<lambda>n. ''slide'' @ str_int n @ ''.png''),
      speech = (\<lambda>t l s. Inr (''voice-'' @ t @ ''.mp3'')),
      audio_duration = (\<lambda>p. Inr 10),
      extract_company_logo = (\<lambda>c. Inr (LogoImage (200, 200))),
      completion_order = (\<lambda>n. rev [0..<n]),
      mp4_name = ''out.mp4'',
      elapsed = 1,
      getsize = (\<lambda>p. 1048576),
      unlink_fails = (\<lambda>p. False)\<rparr>"

definition demo_slide :: slide where
  "demo_slide = [''title'' \<mapsto> ''Hello'', ''content'' \<mapsto> ''Good day'']"

text \<open>
  Where an exception can come from in \<open>_create_slide_video_clip\<close>: outside the inner
  \<open>try\<close> (the rendering raises, or the creation or the writing of the image file
  does), inside the inner \<open>try\<close> (the narrated clip), and in the three calls that
  make a silent clip.
\<close>

definition outer_steps_raise :: "env \<Rightarrow> VideoConfig \<Rightarrow> int \<Rightarrow> int \<Rightarrow> bool" where
  "outer_steps_raise e cfg slide_num total_slides' =
     (rendering_raises cfg slide_num total_slides' \<or>
      raises e NewTempPng slide_num \<or> raises e SavePng slide_num)"

definition narrated_steps_raise :: "env \<Rightarrow> int \<Rightarrow> string \<Rightarrow> bool" where
  "narrated_steps_raise e slide_num audio_file_path =
     (isl (audio_duration e audio_file_path) \<or> raises e AudioVolume slide_num \<or>
      raises e MakeImageClip slide_num \<or> raises e FadeIn slide_num \<or>
      raises e FadeOut slide_num \<or> raises e Volumex slide_num \<or> raises e SetAudio slide_num)"

definition silent_steps_raise :: "env \<Rightarrow> int \<Rightarrow> step \<Rightarrow> step \<Rightarrow> step \<Rightarrow> bool" where
  "silent_steps_raise e slide_num make_clip fade_in fade_out =
     (raises e make_clip slide_num \<or> raises e fade_in slide_num \<or> raises e fade_out slide_num)"

text \<open>The environment in which only the second font candidate is installed.\<close>

definition dejavu_env :: env where
  "dejavu_env =
     quiet_env\<lparr>installed := (\<lambda>p. p = ''/usr/share/fonts/truetype/dejavu/DejaVuSans-Bold.ttf'')\<rparr>"

text \<open>The environment in which loading a narration file raises.\<close>

definition failing_audio_env :: env where
  "failing_audio_env = quiet_env\<lparr>audio_duration := (\<lambda>p. Inl LibraryError)\<rparr>"

text \<open>The environment in which writing the slide image to its file raises.\<close>

definition failing_save_env :: env where
  "failing_save_env = quiet_env\<lparr>raises := (\<lambda>s n. s = SavePng)\<rparr>"

text \<open>The environment in which the volume effect on a loaded narration raises.\<close>

definition failing_volume_env :: env where
  "failing_volume_env = quiet_env\<lparr>raises := (\<lambda>s n. s = AudioVolume)\<rparr>"

text \<open>A slide with a lower-case title and no content.\<close>

definition title_only_slide :: slide where
  "title_only_slide = [''title'' \<mapsto> ''ab'']"

section \<open>What the claims about the coordinator speak of\<close>

text \<open>
  The clip that the builder makes for the slide with index \<open>i\<close>. It depends on the
  environment and the configuration, not on the rest of the state (lemma
  \<open>create_built_clip\<close> below), so it is taken at the initial state.
\<close>

definition built_clip ::
  "env \<Rightarrow> VideoConfig \<Rightarrow> slide list \<Rightarrow> string \<Rightarrow> logo \<Rightarrow> string \<Rightarrow> real \<Rightarrow> nat
    \<Rightarrow> clip option" where
  "built_clip e cfg slides template company_logo tts_lang speed_factor i =
     fst (create_slide_video_clip e (slides ! i) template (int i + 1) (int (length slides))
            company_logo tts_lang speed_factor (init_world cfg {}))"

text \<open>The clips of the slides that were built, in the order of the slides.\<close>

definition clips_in_slide_order ::
  "env \<Rightarrow> VideoConfig \<Rightarrow> slide list \<Rightarrow> string \<Rightarrow> logo \<Rightarrow> string \<Rightarrow> real \<Rightarrow> clip list" where
  "clips_in_slide_order e cfg slides template company_logo tts_lang speed_factor =
     List.map_filter (built_clip e cfg slides template company_logo tts_lang speed_factor)
       [0..<length slides]"

text \<open>The calls of the exporter in a trace.\<close>

fun is_export_event :: "event \<Rightarrow> bool" where
  "is_export_event (ConcatenateVideoclips cs) = True"
| "is_export_event (WriteVideofileCall p) = True"
| "is_export_event ev = False"

text \<open>Four slides, the third without narration text; two slides.\<close>

definition four_slides :: "slide list" where
  "four_slides =
     [[''title'' \<mapsto> ''One'', ''content'' \<mapsto> ''a''],
      [''title'' \<mapsto> ''Two'', ''content'' \<mapsto> ''b''],
      [''title'' \<mapsto> ''Three''],
      [''title'' \<mapsto> ''Four'', ''content'' \<mapsto> ''d'']]"

definition two_slides :: "slide list" where
  "two_slides = [demo_slide, [''title'' \<mapsto> ''Apply'', ''content'' \<mapsto> ''Go now'']]"

text \<open>A configuration with a canvas 60 wide and 200 high.\<close>

definition narrow_config :: VideoConfig where
  "narrow_config = default_config\<lparr>resolution := (60, 200)\<rparr>"

text \<open>The environment in which \<open>write_videofile\<close> raises.\<close>

definition failing_export_env :: env where
  "failing_export_env = quiet_env\<lparr>raises := (\<lambda>s n. s = WriteVideofile)\<rparr>"

section \<open>Text wrapping keeps every word\<close>

lemma isspace_blank: "isspace (CHR '' '')"
  by (simp add: isspace_def)

lemma py_split_aux_word:
  "list_all (\<lambda>c. \<not> isspace c) w \<Longrightarrow> py_split_aux cur (w @ s) = py_split_aux (cur @ w) s"
  by (induction w arbitrary: cur) simp_all

lemma py_split_aux_words:
  "list_all (\<lambda>c. \<not> isspace c) cur \<Longrightarrow> list_all is_word (py_split_aux cur s)"
proof (induction s arbitrary: cur)
  case Nil
  then show ?case by (simp add: is_word_def)
next
  case (Cons c s)
  have e: "list_all is_word (py_split_aux [] s)"
    using Cons.IH [of "[]"] by simp
  show ?case
  proof (cases "isspace c")
    case True
    with e Cons.prems show ?thesis by (simp add: is_word_def [of cur])
  next
    case False
    with Cons.prems have "list_all (\<lambda>c. \<not> isspace c) (cur @ [c])" by simp
    from Cons.IH [OF this] False show ?thesis by simp
  qed
qed

lemma py_split_words: "list_all is_word (py_split s)"
  unfolding py_split_def by (rule py_split_aux_words) simp

lemma py_split_word: "is_word w \<Longrightarrow> py_split w = [w]"
  using py_split_aux_word [of w "[]" "[]"] by (simp add: py_split_def is_word_def)

lemma py_split_join:
  "list_all is_word ws \<Longrightarrow> py_split (py_join '' '' ws) = ws"
proof (induction "'' ''" ws rule: py_join.induct)
  case 1
  show ?case by (simp add: py_split_def)
next
  case (2 w)
  then show ?case by (simp add: py_split_word)
next
  case (3 w v ws)
  from "3.prems" have w: "list_all (\<lambda>c. \<not> isspace c) w" "w \<noteq> []"
    by (simp_all add: is_word_def)
  from "3.prems" have "py_split (py_join '' '' (v # ws)) = v # ws"
    by (intro "3.hyps") simp
  then have r: "py_split_aux [] (py_join '' '' (v # ws)) = v # ws"
    by (simp add: py_split_def)
  have "py_split (py_join '' '' (w # v # ws))
      = py_split_aux w (CHR '' '' # py_join '' '' (v # ws))"
    using py_split_aux_word [OF w(1), of "[]"] by (simp add: py_split_def)
  also have "\<dots> = w # v # ws"
    using w(2) r by (simp add: isspace_blank)
  finally show ?case .
qed

lemma wrap_loop_words:
  "list_all is_word words \<Longrightarrow> list_all is_word current_line \<Longrightarrow>
   wrap_loop fnt max_width words lines current_line = (lines', current_line') \<Longrightarrow>
   list_all is_word current_line' \<and>
   concat (map py_split lines') @ current_line'
     = concat (map py_split lines) @ current_line @ words"
proof (induction words arbitrary: lines current_line)
  case Nil
  then show ?case by simp
next
  case (Cons word words)
  from Cons.prems(1) have word: "is_word word" and words: "list_all is_word words"
    by simp_all
  show ?case
  proof (cases "bbox_width (fnt (py_join '' '' (current_line @ [word]))) \<le> max_width")
    case True
    with Cons.prems(3)
    have run: "wrap_loop fnt max_width words lines (current_line @ [word])
        = (lines', current_line')" by simp
    from Cons.prems(2) word have "list_all is_word (current_line @ [word])" by simp
    from Cons.IH [OF words this run] show ?thesis by simp
  next
    case wide: False
    show ?thesis
    proof (cases "current_line = []")
      case True
      with wide Cons.prems(3)
      have run: "wrap_loop fnt max_width words (lines @ [word]) [] = (lines', current_line')"
        by simp
      have "list_all is_word ([] :: string list)" by simp
      from Cons.IH [OF words this run] True word show ?thesis
        by (simp add: py_split_word)
    next
      case False
      with wide Cons.prems(3)
      have run: "wrap_loop fnt max_width words (lines @ [py_join '' '' current_line]) [word]
          = (lines', current_line')" by simp
      from word have "list_all is_word [word]" by simp
      from Cons.IH [OF words this run] Cons.prems(2) show ?thesis
        by (simp add: py_split_join)
    qed
  qed
qed

text \<open>
  C10. Splitting each line returned by \<open>_wrap_text\<close> on whitespace and concatenating
  the results in order gives exactly the whitespace-split words of the input text, for
  every text, font and \<open>max_width\<close>: no word is dropped, duplicated or reordered, also
  when a single word is wider than \<open>max_width\<close>.
\<close>

theorem wrap_text_keeps_words:
  "concat (map py_split (wrap_text text fnt max_width)) = py_split text"
proof -
  obtain lines current_line
    where run: "wrap_loop fnt max_width (py_split text) [] [] = (lines, current_line)"
    by (cases "wrap_loop fnt max_width (py_split text) [] []") blast
  have "list_all is_word ([] :: string list)" by simp
  from wrap_loop_words [OF py_split_words this run]
  have cur: "list_all is_word current_line"
    and eq: "concat (map py_split lines) @ current_line = py_split text"
    by simp_all
  show ?thesis
  proof (cases "current_line = []")
    case True
    with run eq show ?thesis by (simp add: wrap_text_def)
  next
    case False
    with run eq cur show ?thesis by (simp add: wrap_text_def py_split_join)
  qed
qed

text \<open>
  An example with a font ten units wide per character and \<open>max_width = 50\<close>: the long
  word does not fit and becomes a line of its own.
\<close>

lemma wrap_text_long_word:
  "wrap_text ''aa  bbbbbbbbbbbb cc dd'' (\<lambda>s. (0, 0, 10 * int (length s), 10)) 50
     = [''aa'', ''bbbbbbbbbbbb'', ''cc dd'']"
  by code_simp

section \<open>The steps of the renderer; what the clip builder does to the state\<close>

lemma process_slide_audio_facts:
  "process_slide_audio e sl lang sp w = (a, w1) \<Longrightarrow>
   config w1 = config w \<and> metrics w1 = metrics w \<and> trace w1 = trace w \<and>
   (\<forall>p. a = Some p \<longrightarrow> p \<noteq> [] \<and> p \<in> files w1)"
  by (auto simp: process_slide_audio_def enhanced_text_to_speech_def add_temp_file_def Let_def
      split: option.splits sum.splits if_splits prod.splits)

lemma process_slide_audio_indep:
  "fst (process_slide_audio e sl lang sp w) = fst (process_slide_audio e sl lang sp w')"
  by (auto simp: process_slide_audio_def enhanced_text_to_speech_def add_temp_file_def Let_def
      split: option.splits sum.splits if_splits prod.splits)

lemma img_size_draw [simp]: "img_size (draw new_ops img) = img_size img"
  by (simp add: draw_def)

lemma img_size_add_company_logo [simp]:
  "img_size (add_company_logo e img lg width height) = img_size img"
  by (auto simp: add_company_logo_def add_company_logo_body_def Let_def
      split: sum.splits option.splits logo.splits if_splits)

lemma img_size_draw_text_with_shadow:
  "draw_text_with_shadow e img text fnt width y align tc sc = Inr img' \<Longrightarrow>
   img_size img' = img_size img"
  by (auto simp: draw_text_with_shadow_def Let_def split: sum.splits)

lemma img_size_draw_content_lines:
  "img_size (snd (draw_content_lines e fnt width height content_y ls img)) = img_size img"
proof (induction ls arbitrary: img)
  case Nil
  show ?case by simp
next
  case (Cons a ls)
  obtain i line where a: "a = (i, line)" by (cases a)
  show ?case unfolding a
    by (auto simp: Let_def Cons.IH img_size_draw_text_with_shadow split: sum.splits)
qed

lemma img_size_add_slide_content [simp]:
  "img_size (add_slide_content e img sl width height) = img_size img"
  by (auto simp: add_slide_content_def add_slide_content_body_def Let_def
      img_size_draw_content_lines img_size_draw_text_with_shadow split: sum.splits)

lemma img_size_apply_visual_effects [simp]:
  "img_size (apply_visual_effects e img template) = img_size img"
  by (simp add: apply_visual_effects_def Let_def)

lemma img_size_templates [simp]:
  "img_size (apply_corporate_template width height img) = img_size img"
  "img_size (apply_modern_template width height img) = img_size img"
  "img_size (apply_default_template width height img) = img_size img"
  by (simp_all add: apply_corporate_template_def apply_modern_template_def
      apply_default_template_def Let_def)

lemma prefix_draw [simp]: "prefix (img_ops img) (img_ops (draw new_ops img))"
  by (simp add: draw_def)

lemma prefix_add_company_logo:
  "prefix (img_ops img) (img_ops (add_company_logo e img lg width height))"
  by (auto simp: add_company_logo_def add_company_logo_body_def Let_def
      split: sum.splits option.splits logo.splits if_splits)

lemma prefix_draw_text_with_shadow:
  "draw_text_with_shadow e img text fnt width y align tc sc = Inr img' \<Longrightarrow>
   prefix (img_ops img) (img_ops img')"
  by (auto simp: draw_text_with_shadow_def Let_def split: sum.splits)

lemma prefix_draw_content_lines:
  "prefix (img_ops img) (img_ops (snd (draw_content_lines e fnt width height content_y ls img)))"
proof (induction ls arbitrary: img)
  case Nil
  show ?case by simp
next
  case (Cons a ls)
  obtain i line where a: "a = (i, line)" by (cases a)
  show ?case
  proof (cases "content_y + int i * 80 < height - 100")
    case False
    with Cons.IH [of img] show ?thesis by (simp add: a)
  next
    case True
    show ?thesis
    proof (cases "draw_text_with_shadow e img line fnt width (content_y + int i * 80)
        ''center'' [255, 255, 255] [0, 0, 0, 100]")
      case (Inl x)
      with True show ?thesis by (simp add: a)
    next
      case (Inr img')
      from prefix_draw_text_with_shadow [OF Inr] Cons.IH [of img']
      have "prefix (img_ops img)
          (img_ops (snd (draw_content_lines e fnt width height content_y ls img')))"
        by (rule prefix_order.trans)
      with True Inr show ?thesis by (simp add: a)
    qed
  qed
qed

lemma prefix_apply_visual_effects:
  "prefix (img_ops img) (img_ops (apply_visual_effects e img template))"
  by (simp add: apply_visual_effects_def Let_def draw_def)

lemma prefix_add_slide_content:
  "prefix (img_ops img) (img_ops (add_slide_content e img sl width height))"
proof -
  have a: "prefix (img_ops img) (img_ops (snd (draw_content_lines e fnt width height cy ls img')))"
    if "draw_text_with_shadow e img s tf width y align tc sc = Inr img'"
    for fnt cy ls img' s tf y align tc sc
    using prefix_draw_text_with_shadow [OF that] prefix_draw_content_lines
    by (rule prefix_order.trans)
  show ?thesis
    by (auto simp: add_slide_content_def add_slide_content_body_def Let_def
        split: sum.splits
        intro: a prefix_draw_content_lines prefix_draw_text_with_shadow)
qed

lemma prefix_templates:
  "prefix (img_ops img) (img_ops (apply_corporate_template width height img))"
  "prefix (img_ops img) (img_ops (apply_modern_template width height img))"
  "prefix (img_ops img) (img_ops (apply_default_template width height img))"
  by (simp_all add: apply_corporate_template_def apply_modern_template_def
      apply_default_template_def Let_def)

text \<open>The template step returns on a canvas that \<open>Image.new\<close> accepts.\<close>

lemma apply_template_returns:
  assumes "0 \<le> width" and "0 \<le> height"
  shows "\<exists>img1. apply_template template width height img = Inr img1 \<and>
           img_size img1 = img_size img \<and> prefix (img_ops img) (img_ops img1) \<and>
           (template \<noteq> ''corporate'' \<and> template \<noteq> ''modern'' \<and> template \<noteq> ''minimalist'' \<longrightarrow>
              img1 = apply_default_template width height img)"
proof (cases "template = ''minimalist''")
  case True
  from assms have "0 \<le> height div 20"
    by (simp add: pos_imp_zdiv_nonneg_iff)
  with assms True show ?thesis
    by (simp add: apply_template_def apply_minimalist_template_def draw_rectangle_def Let_def
        draw_def)
next
  case False
  then show ?thesis
    by (simp add: apply_template_def prefix_templates)
qed

text \<open>The four ways \<open>_add_slide_metadata\<close> ends.\<close>

lemma add_slide_metadata_cases:
  "add_slide_metadata e img slide_num total_slides' width height =
     (if width < 100 then Inl ValueError
      else if total_slides' = 0 then Inl ZeroDivisionError
      else if py_int ((real_of_int slide_num / real_of_int total_slides')
                        * real_of_int (width - 100)) < 0
      then Inl ValueError
      else Inr (draw
        [DrawRectangle [(50, height - 60), (50 + (width - 100), height - 60 + 8)]
           [200, 200, 200],
         DrawRectangle [(50, height - 60),
            (50 + py_int ((real_of_int slide_num / real_of_int total_slides')
                            * real_of_int (width - 100)), height - 60 + 8)] [59, 130, 246],
         DrawText (50, height - 60 - 30) (str_int slide_num @ '' / '' @ str_int total_slides')
           (get_font e ''content'' width) [100, 100, 100]] img))"
  by (simp add: add_slide_metadata_def draw_rectangle_def Let_def draw_def)

lemma fill_width_nonneg:
  assumes "0 \<le> slide_num" and "0 < total_slides'" and "100 \<le> width"
  shows "0 \<le> py_int ((real_of_int slide_num / real_of_int total_slides')
                       * real_of_int (width - 100))"
proof -
  from assms have "0 \<le> (real_of_int slide_num / real_of_int total_slides')
      * real_of_int (width - 100)"
    by simp
  then show ?thesis by (simp add: py_int_def)
qed

lemma create_enhanced_slide_negative:
  assumes "resolution cfg = (width, height)" and "width < 0 \<or> height < 0"
  shows "create_enhanced_slide e cfg sl template slide_num total_slides' company_logo
           = Inl ValueError"
proof -
  from assms(2) have n: "Image_new (width, height) = Inl ValueError"
    by (auto simp: Image_new_def)
  show ?thesis
    by (simp only: create_enhanced_slide_def assms(1) prod.case n sum.case)
qed

text \<open>
  On a canvas that \<open>Image.new\<close> accepts, the renderer is the template step, the logo
  and the content, which return, then the metadata step, which may raise, then the
  effects.
\<close>

lemma create_enhanced_slide_steps:
  assumes "resolution cfg = (width, height)" and "0 \<le> width" and "0 \<le> height"
  obtains img0 where
    "img_size (add_slide_content e img0 sl width height) = (width, height)"
    and "template \<noteq> ''corporate'' \<and> template \<noteq> ''modern'' \<and> template \<noteq> ''minimalist'' \<longrightarrow>
        prefix (img_ops (apply_default_template width height
                 \<lparr>img_size = (width, height), img_ops = []\<rparr>))
          (img_ops (add_slide_content e img0 sl width height))"
    and "create_enhanced_slide e cfg sl template slide_num total_slides' company_logo
       = (case add_slide_metadata e (add_slide_content e img0 sl width height) slide_num
                 total_slides' width height of
            Inl x \<Rightarrow> Inl x
          | Inr img4 \<Rightarrow> Inr (apply_visual_effects e img4 template))"
proof -
  define blank where "blank = \<lparr>img_size = (width, height), img_ops = []\<rparr>"
  from assms(2,3) have n: "Image_new (width, height) = Inr blank"
    by (simp add: Image_new_def blank_def)
  from apply_template_returns [OF assms(2,3), of template blank]
  obtain img1 where t: "apply_template template width height blank = Inr img1"
    and s1: "img_size img1 = (width, height)"
    and p1: "prefix (img_ops blank) (img_ops img1)"
    and d1: "template \<noteq> ''corporate'' \<and> template \<noteq> ''modern'' \<and> template \<noteq> ''minimalist'' \<longrightarrow>
        img1 = apply_default_template width height blank"
    by (auto simp: blank_def)
  define img2 where "img2 =
     (if logo_truthy company_logo then add_company_logo e img1 company_logo width height
      else img1)"
  define img3 where "img3 = add_slide_content e img2 sl width height"
  have s3: "img_size img3 = (width, height)"
    by (simp add: img3_def img2_def s1)
  have "prefix (img_ops img1) (img_ops img2)"
    by (simp add: img2_def prefix_add_company_logo)
  moreover have "prefix (img_ops img2) (img_ops img3)"
    unfolding img3_def by (rule prefix_add_slide_content)
  ultimately have p13: "prefix (img_ops img1) (img_ops img3)"
    by (rule prefix_order.trans)
  have c: "create_enhanced_slide e cfg sl template slide_num total_slides' company_logo
       = (case add_slide_metadata e img3 slide_num total_slides' width height of
            Inl x \<Rightarrow> Inl x
          | Inr img4 \<Rightarrow> Inr (apply_visual_effects e img4 template))"
    by (simp only: create_enhanced_slide_def assms(1) prod.case n sum.case t Let_def
        img3_def img2_def)
  have d: "prefix (img_ops (apply_default_template width height blank)) (img_ops img3)"
    if "template \<noteq> ''corporate'' \<and> template \<noteq> ''modern'' \<and> template \<noteq> ''minimalist''"
    using d1 that p13 by simp
  show thesis
  proof (rule that [of img2])
    show "img_size (add_slide_content e img2 sl width height) = (width, height)"
      using s3 by (simp only: img3_def)
    show "template \<noteq> ''corporate'' \<and> template \<noteq> ''modern'' \<and> template \<noteq> ''minimalist'' \<longrightarrow>
        prefix (img_ops (apply_default_template width height
                 \<lparr>img_size = (width, height), img_ops = []\<rparr>))
          (img_ops (add_slide_content e img2 sl width height))"
    proof
      assume "template \<noteq> ''corporate'' \<and> template \<noteq> ''modern'' \<and> template \<noteq> ''minimalist''"
      from d [OF this] show "prefix (img_ops (apply_default_template width height
                 \<lparr>img_size = (width, height), img_ops = []\<rparr>))
          (img_ops (add_slide_content e img2 sl width height))"
        by (simp only: img3_def blank_def)
    qed
    show "create_enhanced_slide e cfg sl template slide_num total_slides' company_logo
       = (case add_slide_metadata e (add_slide_content e img2 sl width height) slide_num
                 total_slides' width height of
            Inl x \<Rightarrow> Inl x
          | Inr img4 \<Rightarrow> Inr (apply_visual_effects e img4 template))"
      using c by (simp only: img3_def)
  qed
qed

text \<open>On a canvas narrower than 100 the progress bar cannot be drawn.\<close>

lemma create_enhanced_slide_narrow:
  assumes "resolution cfg = (width, height)" and "width < 100"
  shows "create_enhanced_slide e cfg sl template slide_num total_slides' company_logo
           = Inl ValueError"
proof (cases "width < 0 \<or> height < 0")
  case True
  with assms(1) show ?thesis by (rule create_enhanced_slide_negative)
next
  case False
  then have nn: "0 \<le> width" "0 \<le> height" by auto
  obtain img0 where c: "create_enhanced_slide e cfg sl template slide_num total_slides'
        company_logo
       = (case add_slide_metadata e (add_slide_content e img0 sl width height) slide_num
                 total_slides' width height of
            Inl x \<Rightarrow> Inl x
          | Inr img4 \<Rightarrow> Inr (apply_visual_effects e img4 template))"
    by (rule create_enhanced_slide_steps [OF assms(1) nn])
  show ?thesis
    unfolding c using assms(2) by (simp add: add_slide_metadata_cases)
qed

text \<open>The renderer raises in the cases of \<open>rendering_raises\<close> and in no other.\<close>

lemma create_enhanced_slide_raises:
  "isl (create_enhanced_slide e cfg sl template slide_num total_slides' company_logo)
     = rendering_raises cfg slide_num total_slides'"
proof -
  obtain width height where r: "resolution cfg = (width, height)"
    by (cases "resolution cfg")
  show ?thesis
  proof (cases "width < 0 \<or> height < 0")
    case True
    from create_enhanced_slide_negative [OF r True, of e sl template slide_num total_slides'
        company_logo] True
    show ?thesis by (auto simp: rendering_raises_def r)
  next
    case False
    then have nn: "0 \<le> width" "0 \<le> height" by auto
    obtain img0 where c: "create_enhanced_slide e cfg sl template slide_num total_slides'
        company_logo
       = (case add_slide_metadata e (add_slide_content e img0 sl width height) slide_num
                 total_slides' width height of
            Inl x \<Rightarrow> Inl x
          | Inr img4 \<Rightarrow> Inr (apply_visual_effects e img4 template))"
      by (rule create_enhanced_slide_steps [OF r nn])
    show ?thesis
      unfolding c using nn
      by (simp add: add_slide_metadata_cases rendering_raises_def r)
  qed
qed

text \<open>
  What an image that the renderer returns looks like: it has the configured size, it
  holds everything that \<open>_add_slide_content\<close> drew, and under an unrecognised template
  name it begins with the default background.
\<close>

lemma create_enhanced_slide_Inr:
  assumes "create_enhanced_slide e cfg sl template slide_num total_slides' company_logo
             = Inr img"
    and "resolution cfg = (width, height)"
  shows "img_size img = (width, height)"
    and "\<exists>img0. prefix (img_ops (add_slide_content e img0 sl width height)) (img_ops img)"
    and "template \<noteq> ''corporate'' \<and> template \<noteq> ''modern'' \<and> template \<noteq> ''minimalist'' \<Longrightarrow>
         prefix (img_ops (apply_default_template width height
                  \<lparr>img_size = (width, height), img_ops = []\<rparr>)) (img_ops img)"
proof -
  have "\<not> (width < 0 \<or> height < 0)"
  proof
    assume "width < 0 \<or> height < 0"
    with assms(2) have "create_enhanced_slide e cfg sl template slide_num total_slides'
        company_logo = Inl ValueError"
      by (rule create_enhanced_slide_negative)
    with assms(1) show False by simp
  qed
  then have nn: "0 \<le> width" "0 \<le> height"
    by simp_all
  obtain img0 where s3: "img_size (add_slide_content e img0 sl width height) = (width, height)"
    and d3: "template \<noteq> ''corporate'' \<and> template \<noteq> ''modern'' \<and> template \<noteq> ''minimalist'' \<longrightarrow>
        prefix (img_ops (apply_default_template width height
                 \<lparr>img_size = (width, height), img_ops = []\<rparr>))
          (img_ops (add_slide_content e img0 sl width height))"
    and c0: "create_enhanced_slide e cfg sl template slide_num total_slides' company_logo
       = (case add_slide_metadata e (add_slide_content e img0 sl width height) slide_num
                 total_slides' width height of
            Inl x \<Rightarrow> Inl x
          | Inr img4 \<Rightarrow> Inr (apply_visual_effects e img4 template))"
    by (rule create_enhanced_slide_steps [OF assms(2) nn, where e = e and sl = sl
          and template = template and slide_num = slide_num
          and total_slides' = total_slides' and company_logo = company_logo])
  define img3 where "img3 = add_slide_content e img0 sl width height"
  note i3 = img3_def
  note s3 = s3 [folded img3_def]
  note c = c0 [folded img3_def]
  from assms(1) c obtain img4
    where m: "add_slide_metadata e img3 slide_num total_slides' width height = Inr img4"
      and i: "img = apply_visual_effects e img4 template"
    by (cases "add_slide_metadata e img3 slide_num total_slides' width height") simp_all
  from m have "\<exists>new_ops. img4 = draw new_ops img3"
    unfolding add_slide_metadata_cases by (auto split: if_splits)
  then obtain new_ops where "img4 = draw new_ops img3" ..
  then have s4: "img_size img4 = img_size img3"
    and p4: "prefix (img_ops img3) (img_ops img4)"
    by simp_all
  from p4 prefix_apply_visual_effects [of img4 e template]
  have p: "prefix (img_ops img3) (img_ops img)"
    unfolding i by (rule prefix_order.trans)
  show "img_size img = (width, height)"
    by (simp add: i s4 s3)
  from p i3 show "\<exists>img0. prefix (img_ops (add_slide_content e img0 sl width height))
      (img_ops img)"
    by blast
  show "prefix (img_ops (apply_default_template width height
                  \<lparr>img_size = (width, height), img_ops = []\<rparr>)) (img_ops img)"
    if t: "template \<noteq> ''corporate'' \<and> template \<noteq> ''modern'' \<and> template \<noteq> ''minimalist''"
  proof -
    from d3 [rule_format, OF t] have "prefix (img_ops (apply_default_template width height
                  \<lparr>img_size = (width, height), img_ops = []\<rparr>)) (img_ops img3)"
      by (simp only: img3_def)
    from this p show ?thesis by (rule prefix_order.trans)
  qed
qed

lemma count_processed_simps [simp]:
  "config (count_processed d w) = config w"
  "failed_slides (metrics (count_processed d w)) = failed_slides (metrics w)"
  "trace (count_processed d w) = trace w"
  "files (count_processed d w) = files w"
  "temp_files (count_processed d w) = temp_files w"
  by (simp_all add: count_processed_def)

lemma body_facts:
  assumes "create_slide_video_clip_body e sl template slide_num total_slides' company_logo
             tts_lang speed_factor w = (r, w1)"
  shows "config w1 = config w \<and> failed_slides (metrics w1) = failed_slides (metrics w) \<and>
         trace w1 = trace w"
proof -
  have a: "config w2 = config w \<and> metrics w2 = metrics w \<and> trace w2 = trace w"
    if "process_slide_audio e sl tts_lang speed_factor
          (add_temp_file png (w\<lparr>files := insert png (files w)\<rparr>)) = (au, w2)"
    for png au w2
    using process_slide_audio_facts [OF that] by (simp add: add_temp_file_def)
  show ?thesis
    using assms
    by (auto simp: create_slide_video_clip_body_def Let_def
        split: sum.splits if_splits prod.splits option.splits dest!: a)
qed

lemma body_indep:
  assumes "config w = config w'"
  shows "fst (create_slide_video_clip_body e sl template slide_num total_slides' company_logo
             tts_lang speed_factor w)
       = fst (create_slide_video_clip_body e sl template slide_num total_slides' company_logo
             tts_lang speed_factor w')"
proof (cases "create_enhanced_slide e (config w) sl template slide_num total_slides' company_logo")
  case (Inl x)
  with assms show ?thesis by (simp add: create_slide_video_clip_body_def)
next
  case (Inr slide_img)
  define png where "png = png_name e slide_num"
  define v where "v = add_temp_file png (w\<lparr>files := insert png (files w)\<rparr>)"
  define v' where "v' = add_temp_file png (w'\<lparr>files := insert png (files w')\<rparr>)"
  obtain a w2 where p: "process_slide_audio e sl tts_lang speed_factor v = (a, w2)"
    by (cases "process_slide_audio e sl tts_lang speed_factor v")
  obtain a' w2' where p': "process_slide_audio e sl tts_lang speed_factor v' = (a', w2')"
    by (cases "process_slide_audio e sl tts_lang speed_factor v'")
  from process_slide_audio_indep [of e sl tts_lang speed_factor v v'] p p'
  have aa: "a' = a" by simp
  from process_slide_audio_facts [OF p] process_slide_audio_facts [OF p'] assms
  have c: "config w2 = config w" "config w2' = config w"
    and f: "\<And>q. a = Some q \<Longrightarrow> q \<noteq> [] \<and> q \<in> files w2 \<and> q \<in> files w2'"
    by (simp_all add: v_def v'_def add_temp_file_def aa)
  show ?thesis
    using Inr assms p p' c f
    by (auto simp: create_slide_video_clip_body_def Let_def aa
        simp flip: png_def v_def v'_def
        split: sum.splits option.splits)
qed


lemma create_failed:
  assumes "create_slide_video_clip e sl template slide_num total_slides' company_logo
             tts_lang speed_factor w = (r, w')"
  shows "failed_slides (metrics w') = failed_slides (metrics w) + (if r = None then 1 else 0)"
    and "config w' = config w"
    and "(r = None) = isl (fst (create_slide_video_clip_body e sl template slide_num
             total_slides' company_logo tts_lang speed_factor (record_event (BuildClip slide_num) w)))"
proof -
  obtain b w1 where b: "create_slide_video_clip_body e sl template slide_num total_slides'
      company_logo tts_lang speed_factor (record_event (BuildClip slide_num) w) = (b, w1)"
    by (cases "create_slide_video_clip_body e sl template slide_num total_slides'
      company_logo tts_lang speed_factor (record_event (BuildClip slide_num) w)")
  from body_facts [OF b]
  have f: "failed_slides (metrics w1) = failed_slides (metrics w)" "config w1 = config w"
    by (simp_all add: record_event_def)
  from assms b f
  show "failed_slides (metrics w') = failed_slides (metrics w) + (if r = None then 1 else 0)"
    by (cases b) (auto simp: create_slide_video_clip_def count_failed_def)
  from assms b f show "config w' = config w"
    by (cases b) (auto simp: create_slide_video_clip_def count_failed_def)
  from assms b show "(r = None) = isl (fst (create_slide_video_clip_body e sl template slide_num
             total_slides' company_logo tts_lang speed_factor (record_event (BuildClip slide_num) w)))"
    by (cases b) (auto simp: create_slide_video_clip_def)
qed

lemma create_indep:
  assumes "config w = config w'"
  shows "fst (create_slide_video_clip e sl template slide_num total_slides' company_logo
             tts_lang speed_factor w)
       = fst (create_slide_video_clip e sl template slide_num total_slides' company_logo
             tts_lang speed_factor w')"
proof -
  have "config (record_event (BuildClip slide_num) w) = config (record_event (BuildClip slide_num) w')"
    using assms by (simp add: record_event_def)
  from body_indep [OF this, of e sl template slide_num total_slides' company_logo tts_lang speed_factor]
  show ?thesis
    by (auto simp: create_slide_video_clip_def split: prod.splits sum.splits)
qed

lemma body_silent:
  assumes "create_enhanced_slide e (config w) sl template slide_num total_slides' company_logo
             = Inr img"
    and "\<not> raises e NewTempPng slide_num" and "\<not> raises e SavePng slide_num"
    and "fst (process_slide_audio e sl tts_lang speed_factor w) = None"
  shows "fst (create_slide_video_clip_body e sl template slide_num total_slides' company_logo
             tts_lang speed_factor w)
       = silent_clip e (config w) slide_num (png_name e slide_num) img
           SilentImageClip SilentFadeIn SilentFadeOut"
proof -
  define v where "v = add_temp_file (png_name e slide_num)
      (w\<lparr>files := insert (png_name e slide_num) (files w)\<rparr>)"
  obtain a w2 where p: "process_slide_audio e sl tts_lang speed_factor v = (a, w2)"
    by (cases "process_slide_audio e sl tts_lang speed_factor v")
  from process_slide_audio_indep [of e sl tts_lang speed_factor v w] p assms(4)
  have a: "a = None" by simp
  from process_slide_audio_facts [OF p] have c: "config w2 = config w"
    by (simp add: v_def add_temp_file_def)
  show ?thesis
    using assms(1-3) p a c
    by (simp add: create_slide_video_clip_body_def Let_def flip: v_def split: sum.splits)
qed

lemma body_narrated:
  assumes "create_enhanced_slide e (config w) sl template slide_num total_slides' company_logo
             = Inr img"
    and "\<not> raises e NewTempPng slide_num" and "\<not> raises e SavePng slide_num"
    and "fst (process_slide_audio e sl tts_lang speed_factor w) = Some p"
  shows "fst (create_slide_video_clip_body e sl template slide_num total_slides' company_logo
             tts_lang speed_factor w)
       = (case narrated_clip e (config w) slide_num (png_name e slide_num) img p of
            Inr c \<Rightarrow> Inr c
          | Inl audio_error \<Rightarrow> silent_clip e (config w) slide_num (png_name e slide_num) img
              FallbackImageClip FallbackFadeIn FallbackFadeOut)"
proof -
  define v where "v = add_temp_file (png_name e slide_num)
      (w\<lparr>files := insert (png_name e slide_num) (files w)\<rparr>)"
  obtain a w2 where p: "process_slide_audio e sl tts_lang speed_factor v = (a, w2)"
    by (cases "process_slide_audio e sl tts_lang speed_factor v")
  from process_slide_audio_indep [of e sl tts_lang speed_factor v w] p assms(4)
  have a: "a = Some p" by simp
  from process_slide_audio_facts [OF p] a have c: "config w2 = config w"
    and f: "p \<noteq> []" "p \<in> files w2"
    by (simp_all add: v_def add_temp_file_def)
  show ?thesis
    using assms(1-3) p a c f
    by (simp add: create_slide_video_clip_body_def Let_def flip: v_def split: sum.splits)
qed

lemma body_outer_raise:
  assumes "isl (create_enhanced_slide e (config w) sl template slide_num total_slides'
             company_logo) \<or> raises e NewTempPng slide_num \<or> raises e SavePng slide_num"
  shows "isl (fst (create_slide_video_clip_body e sl template slide_num total_slides'
             company_logo tts_lang speed_factor w))"
  using assms
  by (auto simp: create_slide_video_clip_body_def Let_def split: sum.splits)

lemma record_event_simps [simp]:
  "config (record_event ev w) = config w"
  "metrics (record_event ev w) = metrics w"
  "files (record_event ev w) = files w"
  "temp_files (record_event ev w) = temp_files w"
  "trace (record_event ev w) = trace w @ [ev]"
  by (simp_all add: record_event_def)

section \<open>Exceptions while a clip is built\<close>

lemma narrated_clip_raises:
  "isl (narrated_clip e cfg slide_num png img p) = narrated_steps_raise e slide_num p"
  by (auto simp: narrated_clip_def narrated_steps_raise_def Let_def split: sum.splits)

lemma narrated_clip_returns:
  "\<not> narrated_steps_raise e slide_num p \<Longrightarrow>
   \<exists>d. audio_duration e p = Inr d \<and>
     narrated_clip e cfg slide_num png img p =
       Inr \<lparr>clip_frame = img, clip_source = png,
            clip_duration = max (min (d + 1) (max_slide_duration cfg)) (min_slide_duration cfg),
            clip_fade = fade_duration cfg, clip_audio = Some (p, d)\<rparr>"
  by (auto simp: narrated_clip_def narrated_steps_raise_def Let_def split: sum.splits)

lemma silent_clip_cases:
  "silent_clip e cfg slide_num png img s1 s2 s3 =
     (if silent_steps_raise e slide_num s1 s2 s3 then Inl LibraryError
      else Inr \<lparr>clip_frame = img, clip_source = png, clip_duration = min_slide_duration cfg,
                 clip_fade = fade_duration cfg, clip_audio = None\<rparr>)"
  by (simp add: silent_clip_def silent_steps_raise_def Let_def)

lemma create_result:
  "fst (create_slide_video_clip e sl template slide_num total_slides' company_logo
          tts_lang speed_factor w)
   = (case fst (create_slide_video_clip_body e sl template slide_num total_slides' company_logo
          tts_lang speed_factor (record_event (BuildClip slide_num) w)) of
        Inl x \<Rightarrow> None | Inr c \<Rightarrow> Some c)"
  by (simp add: create_slide_video_clip_def split: prod.splits sum.splits)

lemma create_cases:
  "fst (create_slide_video_clip e sl template slide_num total_slides' company_logo
          tts_lang speed_factor w)
   = (if outer_steps_raise e (config w) slide_num total_slides' then None
      else (case create_enhanced_slide e (config w) sl template slide_num total_slides'
                  company_logo of
              Inl x \<Rightarrow> None
            | Inr img \<Rightarrow>
               (case fst (process_slide_audio e sl tts_lang speed_factor w) of
                  None \<Rightarrow>
                    (case silent_clip e (config w) slide_num (png_name e slide_num) img
                       SilentImageClip SilentFadeIn SilentFadeOut of
                         Inl x \<Rightarrow> None | Inr c \<Rightarrow> Some c)
                | Some p \<Rightarrow>
                    (case narrated_clip e (config w) slide_num (png_name e slide_num) img p of
                       Inr c \<Rightarrow> Some c
                     | Inl audio_error \<Rightarrow>
                        (case silent_clip e (config w) slide_num (png_name e slide_num) img
                           FallbackImageClip FallbackFadeIn FallbackFadeOut of
                             Inl x \<Rightarrow> None | Inr c \<Rightarrow> Some c)))))"
proof -
  define v where "v = record_event (BuildClip slide_num) w"
  have cv: "config v = config w" by (simp add: v_def)
  have pv: "fst (process_slide_audio e sl tts_lang speed_factor v)
      = fst (process_slide_audio e sl tts_lang speed_factor w)"
    by (rule process_slide_audio_indep)
  show ?thesis
  proof (cases "outer_steps_raise e (config w) slide_num total_slides'")
    case True
    then have "isl (create_enhanced_slide e (config v) sl template slide_num total_slides'
             company_logo) \<or> raises e NewTempPng slide_num \<or> raises e SavePng slide_num"
      by (auto simp: create_enhanced_slide_raises outer_steps_raise_def cv)
    from body_outer_raise [OF this, of tts_lang speed_factor] True show ?thesis
      by (simp add: create_result isl_def flip: v_def) auto
  next
    case False
    then have ok: "\<not> raises e NewTempPng slide_num" "\<not> raises e SavePng slide_num"
      and "\<not> isl (create_enhanced_slide e (config v) sl template slide_num total_slides'
             company_logo)"
      by (auto simp: create_enhanced_slide_raises outer_steps_raise_def cv)
    then obtain img where r: "create_enhanced_slide e (config v) sl template slide_num
        total_slides' company_logo = Inr img"
      by (cases "create_enhanced_slide e (config v) sl template slide_num
        total_slides' company_logo") auto
    show ?thesis
    proof (cases "fst (process_slide_audio e sl tts_lang speed_factor w)")
      case None
      with pv have "fst (process_slide_audio e sl tts_lang speed_factor v) = None" by simp
      from body_silent [OF r ok this] False r None show ?thesis
        by (simp add: create_result cv flip: v_def)
    next
      case (Some p)
      with pv have "fst (process_slide_audio e sl tts_lang speed_factor v) = Some p" by simp
      from body_narrated [OF r ok this] False r Some show ?thesis
        by (simp add: create_result cv flip: v_def split: sum.splits)
    qed
  qed
qed


lemma create_outcome:
  "if outer_steps_raise e (config w) slide_num total_slides'
   then fst (create_slide_video_clip e sl template slide_num total_slides' company_logo
          tts_lang speed_factor w) = None
   else (case fst (process_slide_audio e sl tts_lang speed_factor w) of
           None \<Rightarrow>
             if silent_steps_raise e slide_num SilentImageClip SilentFadeIn SilentFadeOut
             then fst (create_slide_video_clip e sl template slide_num total_slides' company_logo
                    tts_lang speed_factor w) = None
             else (\<exists>c. fst (create_slide_video_clip e sl template slide_num total_slides'
                          company_logo tts_lang speed_factor w) = Some c \<and>
                        clip_audio c = None \<and>
                        clip_duration c = min_slide_duration (config w))
         | Some p \<Rightarrow>
             if \<not> narrated_steps_raise e slide_num p
             then (\<exists>c d. fst (create_slide_video_clip e sl template slide_num total_slides'
                          company_logo tts_lang speed_factor w) = Some c \<and>
                        clip_audio c = Some (p, d))
             else if silent_steps_raise e slide_num FallbackImageClip FallbackFadeIn
                       FallbackFadeOut
             then fst (create_slide_video_clip e sl template slide_num total_slides' company_logo
                    tts_lang speed_factor w) = None
             else (\<exists>c. fst (create_slide_video_clip e sl template slide_num total_slides'
                          company_logo tts_lang speed_factor w) = Some c \<and>
                        clip_audio c = None \<and>
                        clip_duration c = min_slide_duration (config w)))"
proof (cases "outer_steps_raise e (config w) slide_num total_slides'")
  case True
  then show ?thesis by (simp add: create_cases)
next
  case False
  then have "\<not> isl (create_enhanced_slide e (config w) sl template slide_num total_slides'
             company_logo)"
    by (auto simp: create_enhanced_slide_raises outer_steps_raise_def)
  then obtain img where r: "create_enhanced_slide e (config w) sl template slide_num
      total_slides' company_logo = Inr img"
    by (cases "create_enhanced_slide e (config w) sl template slide_num
      total_slides' company_logo") auto
  show ?thesis
  proof (cases "fst (process_slide_audio e sl tts_lang speed_factor w)")
    case None
    with False r show ?thesis
      by (simp add: create_cases silent_clip_cases)
  next
    case (Some p)
    show ?thesis
    proof (cases "narrated_steps_raise e slide_num p")
      case True
      then have "isl (narrated_clip e (config w) slide_num (png_name e slide_num) img p)"
        by (simp add: narrated_clip_raises)
      then obtain x where "narrated_clip e (config w) slide_num (png_name e slide_num) img p
          = Inl x"
        by (cases "narrated_clip e (config w) slide_num (png_name e slide_num) img p") auto
      with False r Some True show ?thesis
        by (simp add: create_cases silent_clip_cases)
    next
      case n: False
      from narrated_clip_returns [OF n, of "config w" "png_name e slide_num" img]
        False r Some n
      show ?thesis
        by (auto simp: create_cases)
    qed
  qed
qed

text \<open>
  C4, as the code has it. The call never lets an exception out: it returns a clip or
  \<open>None\<close>, and \<open>failed_slides\<close> grows by one exactly when it returns \<open>None\<close>. An
  exception outside the inner \<open>try\<close> (rendering, creating or writing the image file)
  gives \<open>None\<close>. Otherwise: when the synthesis returns \<open>None\<close> the result is the
  silent clip of \<open>min_slide_duration\<close>, unless making that clip raises, which gives
  \<open>None\<close>; when the synthesis returns a file, an exception inside the inner \<open>try\<close> is
  caught there and the result is again the silent clip of \<open>min_slide_duration\<close>,
  with no failure counted, unless making the fallback clip raises as well.
\<close>

theorem slide_failure_policy:
  assumes "create_slide_video_clip e sl template slide_num total_slides' company_logo
             tts_lang speed_factor w = (r, w')"
  shows "failed_slides (metrics w') = failed_slides (metrics w) + (if r = None then 1 else 0) \<and>
    (if outer_steps_raise e (config w) slide_num total_slides' then r = None
     else (case fst (process_slide_audio e sl tts_lang speed_factor w) of
             None \<Rightarrow>
               if silent_steps_raise e slide_num SilentImageClip SilentFadeIn SilentFadeOut
               then r = None
               else (\<exists>c. r = Some c \<and> clip_audio c = None \<and>
                          clip_duration c = min_slide_duration (config w))
           | Some p \<Rightarrow>
               if \<not> narrated_steps_raise e slide_num p
               then (\<exists>c d. r = Some c \<and> clip_audio c = Some (p, d))
               else if silent_steps_raise e slide_num FallbackImageClip FallbackFadeIn
                         FallbackFadeOut
               then r = None
               else (\<exists>c. r = Some c \<and> clip_audio c = None \<and>
                          clip_duration c = min_slide_duration (config w))))"
proof -
  from assms have r: "fst (create_slide_video_clip e sl template slide_num total_slides'
      company_logo tts_lang speed_factor w) = r" by simp
  from create_failed(1) [OF assms]
    create_outcome [of e w slide_num total_slides' sl template company_logo tts_lang speed_factor]
  show ?thesis unfolding r by simp
qed

theorem slide_failure_policy_witness:
  "fst (create_slide_video_clip failing_save_env demo_slide ''corporate'' 1 1 LogoNone
          ''en-US'' 1 (init_world default_config {})) = None \<and>
   failed_slides (metrics (snd (create_slide_video_clip failing_save_env demo_slide
          ''corporate'' 1 1 LogoNone ''en-US'' 1 (init_world default_config {})))) = 1 \<and>
   fst (create_slide_video_clip quiet_env demo_slide ''corporate'' 1 1 LogoNone
          ''en-US'' 1 (init_world narrow_config {})) = None \<and>
   failed_slides (metrics (snd (create_slide_video_clip quiet_env demo_slide
          ''corporate'' 1 1 LogoNone ''en-US'' 1 (init_world narrow_config {})))) = 1"
proof -
  have o: "outer_steps_raise failing_save_env (config (init_world default_config {})) 1 1"
    by (simp add: outer_steps_raise_def failing_save_env_def quiet_env_def)
  have m: "failed_slides (metrics (init_world default_config {})) = 0"
    by (simp add: init_world_def)
  have o': "outer_steps_raise quiet_env (config (init_world narrow_config {})) 1 1"
    by (simp add: outer_steps_raise_def rendering_raises_def init_world_def narrow_config_def)
  have m': "failed_slides (metrics (init_world narrow_config {})) = 0"
    by (simp add: init_world_def)
  from slide_failure_policy [OF surjective_pairing, of failing_save_env demo_slide
      "''corporate''" 1 1 LogoNone "''en-US''" 1 "init_world default_config {}"] o m
  have a: "fst (create_slide_video_clip failing_save_env demo_slide ''corporate'' 1 1 LogoNone
          ''en-US'' 1 (init_world default_config {})) = None \<and>
   failed_slides (metrics (snd (create_slide_video_clip failing_save_env demo_slide
          ''corporate'' 1 1 LogoNone ''en-US'' 1 (init_world default_config {})))) = 1"
    by simp
  from slide_failure_policy [OF surjective_pairing, of quiet_env demo_slide
      "''corporate''" 1 1 LogoNone "''en-US''" 1 "init_world narrow_config {}"] o' m'
  have b: "fst (create_slide_video_clip quiet_env demo_slide ''corporate'' 1 1 LogoNone
          ''en-US'' 1 (init_world narrow_config {})) = None \<and>
   failed_slides (metrics (snd (create_slide_video_clip quiet_env demo_slide
          ''corporate'' 1 1 LogoNone ''en-US'' 1 (init_world narrow_config {})))) = 1"
    by simp
  from a b show ?thesis by simp
qed

text \<open>
  The claim as written fails where loading the narration raises: an exception is thrown
  during the composition, yet the call returns a clip and counts no failure.
\<close>

theorem narration_exception_counterexample:
  "isl (audio_duration failing_audio_env ''voice-Good day.mp3'') \<and>
   fst (process_slide_audio failing_audio_env demo_slide ''en-US'' 1
          (init_world default_config {})) = Some ''voice-Good day.mp3'' \<and>
   (\<exists>c. fst (create_slide_video_clip failing_audio_env demo_slide ''corporate'' 1 1 LogoNone
          ''en-US'' 1 (init_world default_config {})) = Some c \<and>
        clip_audio c = None \<and> clip_duration c = 3) \<and>
   failed_slides (metrics (snd (create_slide_video_clip failing_audio_env demo_slide
          ''corporate'' 1 1 LogoNone ''en-US'' 1 (init_world default_config {})))) = 0"
proof -
  have a: "isl (audio_duration failing_audio_env ''voice-Good day.mp3'')"
    by (simp add: failing_audio_env_def)
  have p: "fst (process_slide_audio failing_audio_env demo_slide ''en-US'' 1
              (init_world default_config {})) = Some ''voice-Good day.mp3''"
    by (simp add: process_slide_audio_def enhanced_text_to_speech_def quiet_env_def
        failing_audio_env_def demo_slide_def py_replace.simps py_strip_def isspace_def
        add_temp_file_def)
  have o: "\<not> outer_steps_raise failing_audio_env (config (init_world default_config {})) 1 1"
    by (simp add: outer_steps_raise_def rendering_raises_def py_int_def
        failing_audio_env_def quiet_env_def init_world_def
        default_config_def)
  have n: "narrated_steps_raise failing_audio_env 1 ''voice-Good day.mp3''"
    by (simp add: narrated_steps_raise_def failing_audio_env_def)
  have s: "\<not> silent_steps_raise failing_audio_env 1 FallbackImageClip FallbackFadeIn
      FallbackFadeOut"
    by (simp add: silent_steps_raise_def failing_audio_env_def quiet_env_def)
  have m: "min_slide_duration (config (init_world default_config {})) = 3"
    "failed_slides (metrics (init_world default_config {})) = 0"
    by (simp_all add: init_world_def default_config_def)
  from create_outcome [of failing_audio_env "init_world default_config {}" 1 1 demo_slide
      "''corporate''" LogoNone "''en-US''" 1] o p n s m
  have c: "\<exists>c. fst (create_slide_video_clip failing_audio_env demo_slide ''corporate'' 1 1
      LogoNone ''en-US'' 1 (init_world default_config {})) = Some c \<and>
        clip_audio c = None \<and> clip_duration c = 3"
    by simp
  from create_failed(1) [OF surjective_pairing, of failing_audio_env demo_slide
      "''corporate''" 1 1 LogoNone "''en-US''" 1 "init_world default_config {}"] c m
  have "failed_slides (metrics (snd (create_slide_video_clip failing_audio_env demo_slide
          ''corporate'' 1 1 LogoNone ''en-US'' 1 (init_world default_config {})))) = 0"
    by auto
  with a p c show ?thesis by simp
qed

section \<open>Clip durations\<close>

lemma create_clip_of_outcome:
  assumes "fst (create_slide_video_clip e sl template slide_num total_slides' company_logo
             tts_lang speed_factor w) = Some c"
  shows "case fst (process_slide_audio e sl tts_lang speed_factor w) of
           None \<Rightarrow> clip_audio c = None \<and> clip_duration c = min_slide_duration (config w)
         | Some p \<Rightarrow>
             if narrated_steps_raise e slide_num p
             then clip_audio c = None \<and> clip_duration c = min_slide_duration (config w)
             else (\<exists>d. audio_duration e p = Inr d \<and> clip_audio c = Some (p, d) \<and>
                    clip_duration c =
                      max (min (d + 1) (max_slide_duration (config w)))
                        (min_slide_duration (config w)))"
proof (cases "create_enhanced_slide e (config w) sl template slide_num total_slides'
    company_logo")
  case (Inl x)
  with assms show ?thesis by (simp add: create_cases split: if_splits)
next
  case (Inr img)
  show ?thesis
  proof (cases "fst (process_slide_audio e sl tts_lang speed_factor w)")
    case None
    with assms Inr show ?thesis
      by (auto simp: create_cases silent_clip_cases split: if_splits)
  next
    case (Some p)
    show ?thesis
    proof (cases "narrated_steps_raise e slide_num p")
      case True
      then have "isl (narrated_clip e (config w) slide_num (png_name e slide_num) img p)"
        by (simp add: narrated_clip_raises)
      then obtain x where "narrated_clip e (config w) slide_num (png_name e slide_num) img p
          = Inl x"
        by (cases "narrated_clip e (config w) slide_num (png_name e slide_num) img p") auto
      with assms Inr Some True show ?thesis
        by (auto simp: create_cases silent_clip_cases split: if_splits)
    next
      case False
      from narrated_clip_returns [OF False, of "config w" "png_name e slide_num" img]
        assms Inr Some False
      show ?thesis
        by (auto simp: create_cases split: if_splits)
    qed
  qed
qed

text \<open>
  C2, as the code has it. For every clip that \<open>_create_slide_video_clip\<close> returns:
  when the synthesis returns \<open>None\<close> the duration is exactly \<open>min_slide_duration\<close>;
  when it returns a narration file, and loading it (which gives its length \<open>d\<close>) and
  composing the narrated clip raise nothing, the duration is
  \<open>max(min(d + 1.0, max_slide_duration), min_slide_duration)\<close>; when one of these
  calls raises, the clip is the silent fallback and its duration is exactly
  \<open>min_slide_duration\<close>. Hence, if \<open>min_slide_duration \<le> max_slide_duration\<close>, the
  duration of every clip that is built lies between the two, both included.
\<close>

theorem slide_clip_duration:
  assumes "create_slide_video_clip e sl template slide_num total_slides' company_logo
             tts_lang speed_factor w = (Some c, w')"
  shows "(case fst (process_slide_audio e sl tts_lang speed_factor w) of
            None \<Rightarrow> clip_duration c = min_slide_duration (config w)
          | Some p \<Rightarrow>
              if narrated_steps_raise e slide_num p
              then clip_duration c = min_slide_duration (config w)
              else (\<exists>d. audio_duration e p = Inr d \<and>
                     clip_duration c =
                       max (min (d + 1) (max_slide_duration (config w)))
                         (min_slide_duration (config w)))) \<and>
         (min_slide_duration (config w) \<le> max_slide_duration (config w) \<longrightarrow>
            min_slide_duration (config w) \<le> clip_duration c \<and>
            clip_duration c \<le> max_slide_duration (config w))"
proof -
  from assms have f: "fst (create_slide_video_clip e sl template slide_num total_slides'
      company_logo tts_lang speed_factor w) = Some c" by simp
  note o = create_clip_of_outcome [OF f]
  show ?thesis
  proof (cases "fst (process_slide_audio e sl tts_lang speed_factor w)")
    case None
    with o show ?thesis by simp
  next
    case (Some p)
    with o show ?thesis
      by (cases "narrated_steps_raise e slide_num p") auto
  qed
qed

theorem slide_clip_duration_witness:
  "\<exists>c. fst (create_slide_video_clip quiet_env demo_slide ''corporate'' 1 1 LogoNone ''en-US'' 1
            (init_world default_config {})) = Some c \<and>
       clip_duration c = 11 \<and> 3 \<le> clip_duration c \<and> clip_duration c \<le> 20"
proof -
  let ?w = "init_world default_config {}"
  let ?r = "create_slide_video_clip quiet_env demo_slide ''corporate'' 1 1 LogoNone ''en-US'' 1 ?w"
  have p: "fst (process_slide_audio quiet_env demo_slide ''en-US'' 1 ?w)
      = Some ''voice-Good day.mp3''"
    by (simp add: process_slide_audio_def enhanced_text_to_speech_def quiet_env_def
        demo_slide_def py_replace.simps py_strip_def isspace_def add_temp_file_def)
  have o: "\<not> outer_steps_raise quiet_env (config ?w) 1 1"
    by (simp add: outer_steps_raise_def rendering_raises_def py_int_def
        quiet_env_def init_world_def default_config_def)
  have n: "\<not> narrated_steps_raise quiet_env 1 ''voice-Good day.mp3''"
    by (simp add: narrated_steps_raise_def quiet_env_def)
  have a: "audio_duration quiet_env ''voice-Good day.mp3'' = Inr 10"
    by (simp add: quiet_env_def)
  have m: "min_slide_duration (config ?w) = 3" "max_slide_duration (config ?w) = 20"
    by (simp_all add: init_world_def default_config_def)
  from create_outcome [of quiet_env ?w 1 1 demo_slide "''corporate''" LogoNone "''en-US''" 1]
    o p n
  obtain c where c: "fst ?r = Some c" by auto
  then have "?r = (Some c, snd ?r)"
    by (simp add: prod_eq_iff)
  from slide_clip_duration [OF this] p n a m
  have "clip_duration c = 11" by simp
  with c show ?thesis by simp
qed

text \<open>
  The claim as written fails where a call in the inner \<open>try\<close> raises after the
  narration has been loaded: the synthesis succeeds, the narration lasts ten seconds, and
  the clip that is built lasts three seconds, not eleven.
\<close>

theorem narrated_fallback_counterexample:
  "fst (process_slide_audio failing_volume_env demo_slide ''en-US'' 1
          (init_world default_config {})) = Some ''voice-Good day.mp3'' \<and>
   audio_duration failing_volume_env ''voice-Good day.mp3'' = Inr 10 \<and>
   max (min (10 + 1) (max_slide_duration default_config)) (min_slide_duration default_config)
     = 11 \<and>
   (\<exists>c. fst (create_slide_video_clip failing_volume_env demo_slide ''corporate'' 1 1 LogoNone
               ''en-US'' 1 (init_world default_config {})) = Some c \<and>
        clip_duration c = 3)"
proof -
  let ?w = "init_world default_config {}"
  have p: "fst (process_slide_audio failing_volume_env demo_slide ''en-US'' 1 ?w)
      = Some ''voice-Good day.mp3''"
    by (simp add: process_slide_audio_def enhanced_text_to_speech_def quiet_env_def
        failing_volume_env_def demo_slide_def py_replace.simps py_strip_def isspace_def
        add_temp_file_def)
  have a: "audio_duration failing_volume_env ''voice-Good day.mp3'' = Inr 10"
    by (simp add: failing_volume_env_def quiet_env_def)
  have d: "max (min (10 + 1) (max_slide_duration default_config))
      (min_slide_duration default_config) = 11"
    by (simp add: default_config_def)
  have o: "\<not> outer_steps_raise failing_volume_env (config ?w) 1 1"
    by (simp add: outer_steps_raise_def rendering_raises_def py_int_def
        failing_volume_env_def quiet_env_def init_world_def
        default_config_def)
  have n: "narrated_steps_raise failing_volume_env 1 ''voice-Good day.mp3''"
    by (simp add: narrated_steps_raise_def failing_volume_env_def)
  have s: "\<not> silent_steps_raise failing_volume_env 1 FallbackImageClip FallbackFadeIn
      FallbackFadeOut"
    by (simp add: silent_steps_raise_def failing_volume_env_def quiet_env_def)
  have m: "min_slide_duration (config ?w) = 3"
    by (simp add: init_world_def default_config_def)
  from create_outcome [of failing_volume_env ?w 1 1 demo_slide "''corporate''" LogoNone
      "''en-US''" 1] o p n s m
  have "\<exists>c. fst (create_slide_video_clip failing_volume_env demo_slide ''corporate'' 1 1
      LogoNone ''en-US'' 1 ?w) = Some c \<and> clip_duration c = 3"
    by auto
  with p a d show ?thesis by blast
qed

section \<open>The renderer: totality, fonts, and the title\<close>

text \<open>
  The title step of \<open>_add_slide_content\<close>: a title that is not empty after stripping
  and that the font can measure is drawn, as it is, at the centring offset.
\<close>

lemma add_slide_content_title:
  assumes "py_strip (slide_get sl ''title'' []) = title" and "title \<noteq> []"
    and "textbbox e title (get_font e ''title'' width) = Inr b"
  shows "DrawText ((width - bbox_width b) div 2, height div 6) title
           (get_font e ''title'' width) [255, 255, 255]
         \<in> set (img_ops (add_slide_content e img sl width height))"
proof -
  define img1 where "img1 = draw
     [DrawText ((width - bbox_width b) div 2 + 3, height div 6 + 3) title
        (get_font e ''title'' width) [0, 0, 0],
      DrawText ((width - bbox_width b) div 2, height div 6) title
        (get_font e ''title'' width) [255, 255, 255]] img"
  have t: "draw_text_with_shadow e img title (get_font e ''title'' width) width (height div 6)
      ''center'' [255, 255, 255] [0, 0, 0, 128] = Inr img1"
    using assms(3) by (simp add: draw_text_with_shadow_def Let_def img1_def)
  have m: "DrawText ((width - bbox_width b) div 2, height div 6) title
        (get_font e ''title'' width) [255, 255, 255] \<in> set (img_ops img1)"
    by (simp add: img1_def draw_def)
  have "prefix (img_ops img1) (img_ops (add_slide_content e img sl width height))"
    using assms(1,2) t
    by (simp add: add_slide_content_def add_slide_content_body_def Let_def
        prefix_draw_content_lines)
  from set_mono_prefix [OF this] m show ?thesis by auto
qed

lemma probe_fonts_find:
  "probe_fonts e base_size ps =
     (case find (\<lambda>p. installed e p \<and> \<not> truetype_raises e p base_size) ps of
        None \<Rightarrow> DefaultFont
      | Some p \<Rightarrow> FreeTypeFont p base_size)"
  by (induction ps) auto

lemma create_enhanced_slide_returns:
  assumes "resolution cfg = (width, height)" and "100 \<le> width" and "0 \<le> height"
    and "0 \<le> slide_num" and "0 < total_slides'"
  shows "\<exists>img. create_enhanced_slide e cfg sl template slide_num total_slides' company_logo
           = Inr img"
proof -
  from fill_width_nonneg [OF assms(4,5,2)] assms
  have "\<not> rendering_raises cfg slide_num total_slides'"
    by (simp add: rendering_raises_def)
  then have "\<not> isl (create_enhanced_slide e cfg sl template slide_num total_slides'
      company_logo)"
    by (simp add: create_enhanced_slide_raises)
  then show ?thesis
    by (cases "create_enhanced_slide e cfg sl template slide_num total_slides' company_logo")
      simp_all
qed

text \<open>
  C7, as the code has it. The progress bar of \<open>_add_slide_metadata\<close> is the rectangle
  from \<open>x = 50\<close> to \<open>x = width - 50\<close>, so the renderer needs a canvas at least 100 wide:
  on a narrower one \<open>draw.rectangle\<close> raises \<open>ValueError\<close>, and nothing in
  \<open>_create_enhanced_slide\<close> catches it. For a configuration whose resolution has
  \<open>100 \<le> width\<close> and \<open>0 \<le> height\<close>, for every slide (with or without title and
  content), every template name, and every \<open>slide_num\<close> and \<open>total_slides\<close> of a
  non-empty slide list (\<open>0 \<le> slide_num\<close>, \<open>0 < total_slides\<close>), whatever the fonts,
  the text measurement, the logo and the effects do, \<open>_create_enhanced_slide\<close> returns
  an image of the configured resolution, and an unrecognised template name gets the
  default background. \<open>_get_font\<close> never raises: it returns the first candidate path, in
  the order of the list, that exists and that \<open>ImageFont.truetype\<close> loads, at the scaled
  size, and the built-in font when there is none.
\<close>

theorem create_enhanced_slide_total:
  assumes "resolution cfg = (width, height)" and "100 \<le> width" and "0 \<le> height"
    and "0 \<le> slide_num" and "0 < total_slides'"
  shows "(\<exists>img.
      create_enhanced_slide e cfg sl template slide_num total_slides' company_logo = Inr img \<and>
      img_size img = (width, height) \<and>
      (template \<noteq> ''corporate'' \<and> template \<noteq> ''modern'' \<and> template \<noteq> ''minimalist'' \<longrightarrow>
         prefix (img_ops (apply_default_template width height
                  \<lparr>img_size = (width, height), img_ops = []\<rparr>)) (img_ops img))) \<and>
    get_font e font_type w =
      (case find (\<lambda>p. installed e p \<and>
                  \<not> truetype_raises e p (if font_type = ''title'' then w div 25 else w div 35))
              font_paths of
         None \<Rightarrow> DefaultFont
       | Some p \<Rightarrow> FreeTypeFont p (if font_type = ''title'' then w div 25 else w div 35))"
proof -
  from create_enhanced_slide_returns [OF assms]
  obtain img where c: "create_enhanced_slide e cfg sl template slide_num total_slides'
      company_logo = Inr img"
    by blast
  note s = create_enhanced_slide_Inr(1) [OF c assms(1)]
  have d: "template \<noteq> ''corporate'' \<and> template \<noteq> ''modern'' \<and> template \<noteq> ''minimalist'' \<longrightarrow>
         prefix (img_ops (apply_default_template width height
                  \<lparr>img_size = (width, height), img_ops = []\<rparr>)) (img_ops img)"
    using create_enhanced_slide_Inr(3) [OF c assms(1)] by (rule impI)
  from c s d have 1: "\<exists>img.
      create_enhanced_slide e cfg sl template slide_num total_slides' company_logo = Inr img \<and>
      img_size img = (width, height) \<and>
      (template \<noteq> ''corporate'' \<and> template \<noteq> ''modern'' \<and> template \<noteq> ''minimalist'' \<longrightarrow>
         prefix (img_ops (apply_default_template width height
                  \<lparr>img_size = (width, height), img_ops = []\<rparr>)) (img_ops img))"
    by (intro exI [of _ img] conjI)
  have 2: "get_font e font_type w =
      (case find (\<lambda>p. installed e p \<and>
                  \<not> truetype_raises e p (if font_type = ''title'' then w div 25 else w div 35))
              font_paths of
         None \<Rightarrow> DefaultFont
       | Some p \<Rightarrow> FreeTypeFont p (if font_type = ''title'' then w div 25 else w div 35))"
    by (simp only: get_font_def Let_def probe_fonts_find)
  from 1 2 show ?thesis by (rule conjI)
qed

theorem create_enhanced_slide_total_witness:
  "(\<exists>img. create_enhanced_slide dejavu_env default_config Map.empty ''neon'' 1 1 LogoNone
             = Inr img \<and>
      img_size img = (1920, 1080) \<and>
      prefix (img_ops (apply_default_template 1920 1080
                \<lparr>img_size = (1920, 1080), img_ops = []\<rparr>)) (img_ops img)) \<and>
   get_font dejavu_env ''title'' 1920
     = FreeTypeFont ''/usr/share/fonts/truetype/dejavu/DejaVuSans-Bold.ttf'' 76 \<and>
   get_font dejavu_env ''content'' 1920
     = FreeTypeFont ''/usr/share/fonts/truetype/dejavu/DejaVuSans-Bold.ttf'' 54 \<and>
   get_font quiet_env ''title'' 1920 = DefaultFont"
proof -
  have r: "resolution default_config = (1920, 1080)"
    by (simp add: default_config_def)
  from create_enhanced_slide_total [OF r, of 1 1 dejavu_env Map.empty "''neon''" LogoNone
      "''title''" 1920]
  have a: "(\<exists>img. create_enhanced_slide dejavu_env default_config Map.empty ''neon'' 1 1 LogoNone
             = Inr img \<and>
      img_size img = (1920, 1080) \<and>
      prefix (img_ops (apply_default_template 1920 1080
                \<lparr>img_size = (1920, 1080), img_ops = []\<rparr>)) (img_ops img)) \<and>
   get_font dejavu_env ''title'' 1920
     = FreeTypeFont ''/usr/share/fonts/truetype/dejavu/DejaVuSans-Bold.ttf'' 76"
    by (simp add: dejavu_env_def quiet_env_def font_paths_def)
  from create_enhanced_slide_total [OF r, of 1 1 dejavu_env Map.empty "''neon''" LogoNone
      "''content''" 1920]
  have b: "get_font dejavu_env ''content'' 1920
     = FreeTypeFont ''/usr/share/fonts/truetype/dejavu/DejaVuSans-Bold.ttf'' 54"
    by (simp add: dejavu_env_def quiet_env_def font_paths_def)
  from create_enhanced_slide_total [OF r, of 1 1 quiet_env Map.empty "''neon''" LogoNone
      "''title''" 1920]
  have c: "get_font quiet_env ''title'' 1920 = DefaultFont"
    by (simp add: quiet_env_def font_paths_def)
  from a b c show ?thesis by simp
qed

text \<open>
  The claim as written fails on a narrow canvas: at the resolution \<open>60 \<times> 200\<close>, for the
  first slide of a list of one, the progress bar would run from \<open>x = 50\<close> to \<open>x = 10\<close>,
  and the renderer raises \<open>ValueError\<close>.
\<close>

theorem narrow_canvas_counterexample:
  "resolution narrow_config = (60, 200) \<and>
   create_enhanced_slide quiet_env narrow_config demo_slide ''corporate'' 1 1 LogoNone
     = Inl ValueError"
proof -
  have r: "resolution narrow_config = (60, 200)"
    by (simp add: narrow_config_def)
  from r have "create_enhanced_slide quiet_env narrow_config demo_slide ''corporate'' 1 1
      LogoNone = Inl ValueError"
    by (rule create_enhanced_slide_narrow) simp_all
  with r show ?thesis by simp
qed

text \<open>
  C9, as the code has it. The image that goes into the video is made by
  \<open>_create_enhanced_slide\<close>. On a canvas that the renderer accepts (\<open>100 \<le> width\<close>,
  \<open>0 \<le> height\<close>, \<open>0 \<le> slide_num\<close>, \<open>0 < total_slides\<close>), when the slide's title is not
  empty after stripping and the font measures it, the renderer returns an image that has
  the title drawn as it is, stripped and in its own case, at height \<open>height // 6\<close> and at
  the horizontal offset \<open>(width - text_width) // 2\<close>, where \<open>text_width\<close> is the width of
  the title's bounding box under the title font.
\<close>

theorem title_drawn_centred:
  assumes "resolution cfg = (width, height)" and "100 \<le> width" and "0 \<le> height"
    and "0 \<le> slide_num" and "0 < total_slides'"
    and "py_strip (slide_get sl ''title'' []) = title" and "title \<noteq> []"
    and "textbbox e title (get_font e ''title'' width) = Inr b"
  shows "\<exists>img.
     create_enhanced_slide e cfg sl template slide_num total_slides' company_logo = Inr img \<and>
     DrawText ((width - bbox_width b) div 2, height div 6) title
       (get_font e ''title'' width) [255, 255, 255] \<in> set (img_ops img)"
proof -
  from create_enhanced_slide_returns [OF assms(1-5)]
  obtain img where c: "create_enhanced_slide e cfg sl template slide_num total_slides'
      company_logo = Inr img"
    by blast
  from create_enhanced_slide_Inr(2) [OF c assms(1)]
  obtain img0 where p: "prefix (img_ops (add_slide_content e img0 sl width height))
      (img_ops img)" ..
  from add_slide_content_title [OF assms(6-8), of height img0] set_mono_prefix [OF p]
  have "DrawText ((width - bbox_width b) div 2, height div 6) title
       (get_font e ''title'' width) [255, 255, 255] \<in> set (img_ops img)" by auto
  with c show ?thesis by blast
qed

theorem title_drawn_centred_witness:
  "\<exists>img. create_enhanced_slide quiet_env default_config demo_slide ''corporate'' 1 1 LogoNone
            = Inr img \<and>
         DrawText (935, 180) ''Hello'' DefaultFont [255, 255, 255] \<in> set (img_ops img)"
proof -
  have r: "resolution default_config = (1920, 1080)"
    by (simp add: default_config_def)
  have t: "py_strip (slide_get demo_slide ''title'' []) = ''Hello''"
    by (simp add: demo_slide_def slide_get_def py_strip_def isspace_def)
  have f: "get_font quiet_env ''title'' 1920 = DefaultFont"
    by (simp add: get_font_def font_paths_def quiet_env_def)
  have b: "textbbox quiet_env ''Hello'' (get_font quiet_env ''title'' 1920)
      = Inr (0, 0, 50, 10)"
    by (simp add: quiet_env_def)
  from title_drawn_centred [OF r _ _ _ _ t _ b, of 1 1 "''corporate''" LogoNone] f
  show ?thesis by (simp add: bbox_width_def)
qed

text \<open>
  The claim as written fails: the title \<open>ab\<close> is drawn as \<open>ab\<close>, and nothing on the
  image is its upper-case form.
\<close>

theorem title_case_counterexample:
  "py_upper ''ab'' = ''AB'' \<and>
   create_enhanced_slide quiet_env default_config title_only_slide ''minimalist'' 1 1 LogoNone
     = Inr \<lparr>img_size = (1920, 1080),
            img_ops =
              [DrawRectangle [(0, 0), (1920, 1080)] [248, 249, 250],
               DrawRectangle [(0, 0), (1920, 54)] [59, 130, 246],
               DrawText (953, 183) ''ab'' DefaultFont [0, 0, 0],
               DrawText (950, 180) ''ab'' DefaultFont [255, 255, 255],
               DrawRectangle [(50, 1020), (1870, 1028)] [200, 200, 200],
               DrawRectangle [(50, 1020), (1870, 1028)] [59, 130, 246],
               DrawText (50, 990) ''1 / 1'' DefaultFont [100, 100, 100],
               FilterUnsharpMask 1 150 3, Contrast (21 / 20)]\<rparr> \<and>
   \<not> (\<exists>img pos fnt fill.
        create_enhanced_slide quiet_env default_config title_only_slide ''minimalist'' 1 1
          LogoNone = Inr img \<and>
        DrawText pos (py_upper ''ab'') fnt fill \<in> set (img_ops img))"
proof -
  have u: "py_upper ''ab'' = ''AB''"
    by code_simp
  have c: "create_enhanced_slide quiet_env default_config title_only_slide ''minimalist'' 1 1
      LogoNone
     = Inr \<lparr>img_size = (1920, 1080),
            img_ops =
              [DrawRectangle [(0, 0), (1920, 1080)] [248, 249, 250],
               DrawRectangle [(0, 0), (1920, 54)] [59, 130, 246],
               DrawText (953, 183) ''ab'' DefaultFont [0, 0, 0],
               DrawText (950, 180) ''ab'' DefaultFont [255, 255, 255],
               DrawRectangle [(50, 1020), (1870, 1028)] [200, 200, 200],
               DrawRectangle [(50, 1020), (1870, 1028)] [59, 130, 246],
               DrawText (50, 990) ''1 / 1'' DefaultFont [100, 100, 100],
               FilterUnsharpMask 1 150 3, Contrast (21 / 20)]\<rparr>"
    by code_simp
  show ?thesis
    unfolding u c by simp
qed

section \<open>The order of the clips\<close>

lemma count_failed_simps [simp]:
  "config (count_failed w) = config w"
  "trace (count_failed w) = trace w"
  "files (count_failed w) = files w"
  "temp_files (count_failed w) = temp_files w"
  by (simp_all add: count_failed_def)

lemma create_trace:
  assumes "create_slide_video_clip e sl template slide_num total_slides' company_logo
             tts_lang speed_factor w = (r, w')"
  shows "trace w' = trace w @ [BuildClip slide_num]"
proof -
  obtain b w1 where b: "create_slide_video_clip_body e sl template slide_num total_slides'
      company_logo tts_lang speed_factor (record_event (BuildClip slide_num) w) = (b, w1)"
    by (cases "create_slide_video_clip_body e sl template slide_num total_slides'
      company_logo tts_lang speed_factor (record_event (BuildClip slide_num) w)")
  from body_facts [OF b] have "trace w1 = trace w @ [BuildClip slide_num]" by simp
  with assms b show ?thesis
    by (cases b) (auto simp: create_slide_video_clip_def)
qed

lemma create_built_clip:
  assumes "i < length slides"
  shows "fst (create_slide_video_clip e (slides ! i) template (int i + 1) (int (length slides))
            company_logo tts_lang speed_factor w)
       = built_clip e (config w) slides template company_logo tts_lang speed_factor i"
  unfolding built_clip_def
  by (rule create_indep) (simp add: init_world_def)

text \<open>
  The loop over the completed futures: whatever the completion order, each index is
  tagged with the clip of its own slide.
\<close>

lemma collect_completed_tagged:
  assumes "collect_completed e slides template company_logo tts_lang speed_factor order
             video_clips w = (video_clips', w')"
  shows "video_clips' = video_clips @
           List.map_filter
             (\<lambda>i. map_option (Pair i)
                (built_clip e (config w) slides template company_logo tts_lang speed_factor i))
             (filter (\<lambda>i. i < length slides) order) \<and>
         config w' = config w \<and>
         filter is_export_event (trace w') = filter is_export_event (trace w)"
  using assms
proof (induction order arbitrary: video_clips w)
  case Nil
  then show ?case by simp
next
  case (Cons slide_idx rest)
  show ?case
  proof (cases "slide_idx < length slides")
    case False
    with Cons.prems
    have "collect_completed e slides template company_logo tts_lang speed_factor rest
        video_clips w = (video_clips', w')" by simp
    from Cons.IH [OF this] False show ?thesis by simp
  next
    case True
    obtain r w1 where c: "create_slide_video_clip e (slides ! slide_idx) template
        (int slide_idx + 1) (int (length slides)) company_logo tts_lang speed_factor w = (r, w1)"
      by (cases "create_slide_video_clip e (slides ! slide_idx) template
        (int slide_idx + 1) (int (length slides)) company_logo tts_lang speed_factor w")
    from create_built_clip [OF True, of e template company_logo tts_lang speed_factor w] c
    have r: "r = built_clip e (config w) slides template company_logo tts_lang speed_factor
        slide_idx" by simp
    from create_failed(2) [OF c] create_trace [OF c]
    have k: "config w1 = config w"
      "filter is_export_event (trace w1) = filter is_export_event (trace w)"
      by simp_all
    define video_clips1 where "video_clips1 =
      (case r of Some c \<Rightarrow> video_clips @ [(slide_idx, c)] | None \<Rightarrow> video_clips)"
    define w2 where "w2 = (if raises e (ShowProgress 3) (int slide_idx + 1)
      then count_failed w1 else w1)"
    from Cons.prems True c
    have "collect_completed e slides template company_logo tts_lang speed_factor rest
        video_clips1 w2 = (video_clips', w')"
      by (simp add: video_clips1_def w2_def Let_def split: if_splits)
    from Cons.IH [OF this] k True r show ?thesis
      by (simp add: w2_def video_clips1_def split: option.splits)
  qed
qed

lemma sort_tagged:
  assumes "mset order = mset [0..<n]"
  shows "map snd (sort_key fst (List.map_filter (\<lambda>i. map_option (Pair i) (f i))
           (filter (\<lambda>i. i < n) order)))
       = List.map_filter f [0..<n]"
proof -
  let ?tag = "\<lambda>i. map_option (Pair i) (f i)"
  from assms have s: "set order = {0..<n}"
    by (metis mset_eq_setD set_upt)
  then have fo: "filter (\<lambda>i. i < n) order = order"
    by (auto simp: filter_id_conv)
  have tag: "List.map_filter ?tag xs = map (\<lambda>i. (i, the (f i))) (filter (\<lambda>i. f i \<noteq> None) xs)"
    for xs
    by (induction xs) (auto split: option.splits)
  have m: "mset (List.map_filter ?tag order) = mset (List.map_filter ?tag [0..<n])"
    unfolding tag by (simp only: mset_map mset_filter assms)
  have i: "inj_on fst (set (List.map_filter ?tag order))"
    unfolding tag by (auto simp: inj_on_def)
  have "map fst (List.map_filter ?tag [0..<n]) = filter (\<lambda>i. f i \<noteq> None) [0..<n]"
    unfolding tag by (simp add: comp_def)
  then have so: "sorted (map fst (List.map_filter ?tag [0..<n]))"
    by (simp add: sorted_wrt_filter)
  have "sort_key fst (List.map_filter ?tag order) = List.map_filter ?tag [0..<n]"
    using m i so by (rule sort_key_inj_key_eq)
  moreover have "map snd (List.map_filter ?tag xs) = List.map_filter f xs" for xs
    by (induction xs) (auto split: option.splits)
  ultimately show ?thesis by (simp add: fo)
qed


lemma process_parallel_result:
  assumes "process_parallel e max_workers slides template company_logo tts_lang speed_factor w
             = (r, w')"
  shows "config w' = config w"
    and "filter is_export_event (trace w') = filter is_export_event (trace w)"
    and "mset (completion_order e (length slides)) = mset [0..<length slides] \<Longrightarrow>
         r = (if raises e (ShowProgress 2) 0 then Inl LibraryError
              else Inr (clips_in_slide_order e (config w) slides template company_logo
                          tts_lang speed_factor))"
    and "list_all (\<lambda>i. built_clip e (config w) slides template company_logo tts_lang
                         speed_factor i = None) [0..<length slides] \<Longrightarrow>
         r = Inl LibraryError \<or> r = Inr []"
proof -
  define w0 where "w0 = record_event (ThreadPoolExecutor max_workers) w"
  obtain vc w1 where c: "collect_completed e slides template company_logo tts_lang speed_factor
      (completion_order e (length slides)) [] w0 = (vc, w1)"
    by (cases "collect_completed e slides template company_logo tts_lang speed_factor
      (completion_order e (length slides)) [] w0")
  note t = collect_completed_tagged [OF c]
  have w0: "config w0 = config w"
    "filter is_export_event (trace w0) = filter is_export_event (trace w)"
    by (simp_all add: w0_def)
  from assms c [unfolded w0_def]
  have rw: "(r, w') = (if raises e (ShowProgress 2) 0 then (Inl LibraryError, w)
      else (Inr (map snd (sort_key fst vc)), w1))"
    by (auto simp: process_parallel_def split: if_splits)
  from rw t w0 show "config w' = config w"
    by (simp split: if_splits)
  from rw t w0 show "filter is_export_event (trace w') = filter is_export_event (trace w)"
    by (simp split: if_splits)
  show "r = (if raises e (ShowProgress 2) 0 then Inl LibraryError
              else Inr (clips_in_slide_order e (config w) slides template company_logo
                          tts_lang speed_factor))"
    if "mset (completion_order e (length slides)) = mset [0..<length slides]"
    using rw t w0 sort_tagged [OF that]
    by (simp add: clips_in_slide_order_def split: if_splits)
  show "r = Inl LibraryError \<or> r = Inr []"
    if a: "list_all (\<lambda>i. built_clip e (config w) slides template company_logo tts_lang
                         speed_factor i = None) [0..<length slides]"
  proof -
    have "List.map_filter (\<lambda>i. map_option (Pair i)
                (built_clip e (config w) slides template company_logo tts_lang speed_factor i))
             (filter (\<lambda>i. i < length slides) xs) = []" for xs
      using a by (induction xs) (auto simp: list_all_iff)
    with rw t w0 show ?thesis
      by (simp split: if_splits)
  qed
qed

text \<open>
  The sequential loop: the slides are built one after the other in the order of the
  list; a raising progress report ends the loop.
\<close>

lemma process_sequential_result:
  assumes "process_sequential e (int (length slides)) template company_logo tts_lang
             speed_factor ps video_clips w = (r, w')"
    and "list_all (\<lambda>(i, sl). i < length slides \<and> sl = slides ! i) ps"
  shows "config w' = config w \<and>
         filter is_export_event (trace w') = filter is_export_event (trace w) \<and>
         (\<exists>k \<le> length ps. trace w' = trace w @ map (\<lambda>(i, sl). BuildClip (int i + 1)) (take k ps) \<and>
            (\<not> isl r \<longrightarrow> k = length ps)) \<and>
         (\<not> isl r \<longrightarrow> r = Inr (video_clips @
            List.map_filter (built_clip e (config w) slides template company_logo tts_lang
               speed_factor) (map fst ps)))"
  using assms
proof (induction ps arbitrary: video_clips w)
  case Nil
  then show ?case by simp
next
  case (Cons a ps)
  obtain i sl where a: "a = (i, sl)" by (cases a)
  with Cons.prems(2) have i: "i < length slides" and sl: "sl = slides ! i"
    and ps: "list_all (\<lambda>(i, sl). i < length slides \<and> sl = slides ! i) ps"
    by simp_all
  show ?case
  proof (cases "raises e (ShowProgress 4) (int i + 1)")
    case True
    with Cons.prems(1) a have "r = Inl LibraryError" "w' = w" by simp_all
    then show ?thesis by auto
  next
    case False
    obtain c w1 where c: "create_slide_video_clip e sl template (int i + 1)
        (int (length slides)) company_logo tts_lang speed_factor w = (c, w1)"
      by (cases "create_slide_video_clip e sl template (int i + 1)
        (int (length slides)) company_logo tts_lang speed_factor w")
    from create_built_clip [OF i, of e template company_logo tts_lang speed_factor w] c sl
    have b: "c = built_clip e (config w) slides template company_logo tts_lang speed_factor i"
      by simp
    from create_failed(2) [OF c] create_trace [OF c]
    have k: "config w1 = config w" "trace w1 = trace w @ [BuildClip (int i + 1)]"
      by simp_all
    define video_clips1 where "video_clips1 =
      (case c of Some x \<Rightarrow> video_clips @ [x] | None \<Rightarrow> video_clips)"
    from Cons.prems(1) a False c
    have run: "process_sequential e (int (length slides)) template company_logo tts_lang
        speed_factor ps video_clips1 w1 = (r, w')"
      by (simp add: video_clips1_def)
    from Cons.IH [OF run ps]
    obtain k' where h: "config w' = config w1"
      "filter is_export_event (trace w') = filter is_export_event (trace w1)"
      "k' \<le> length ps"
      "trace w' = trace w1 @ map (\<lambda>(i, sl). BuildClip (int i + 1)) (take k' ps)"
      "\<not> isl r \<longrightarrow> k' = length ps"
      "\<not> isl r \<longrightarrow> r = Inr (video_clips1 @
            List.map_filter (built_clip e (config w1) slides template company_logo tts_lang
               speed_factor) (map fst ps))"
      by blast
    have "Suc k' \<le> length (a # ps) \<and>
        trace w' = trace w @ map (\<lambda>(i, sl). BuildClip (int i + 1)) (take (Suc k') (a # ps)) \<and>
        (\<not> isl r \<longrightarrow> Suc k' = length (a # ps))"
      using h k a by simp
    then have tr: "\<exists>k \<le> length (a # ps).
        trace w' = trace w @ map (\<lambda>(i, sl). BuildClip (int i + 1)) (take k (a # ps)) \<and>
        (\<not> isl r \<longrightarrow> k = length (a # ps))"
      by blast
    from h k b have "\<not> isl r \<longrightarrow> r = Inr (video_clips @
            List.map_filter (built_clip e (config w) slides template company_logo tts_lang
               speed_factor) (map fst (a # ps)))"
      by (simp add: a video_clips1_def split: option.splits)
    with h(1,2) k tr show ?thesis by simp
  qed
qed

lemma enumerate_slides:
  "list_all (\<lambda>(i, sl). i < length slides \<and> sl = slides ! i) (enumerate 0 slides)"
  by (auto simp: list_all_iff in_set_enumerate_eq)

lemma cleanup_temp_files_simps [simp]:
  "trace (cleanup_temp_files e w) = trace w"
  "config (cleanup_temp_files e w) = config w"
  "metrics (cleanup_temp_files e w) = metrics w"
  "temp_files (cleanup_temp_files e w) = []"
  by (simp_all add: cleanup_temp_files_def)

lemma export_video_trace:
  assumes "export_video e video_clips w = (r, w')"
  shows "config w' = config w \<and>
         (video_clips = [] \<longrightarrow> r = Inr None \<and> w' = w) \<and>
         (filter is_export_event (trace w') = filter is_export_event (trace w) \<or>
          filter is_export_event (trace w')
            = filter is_export_event (trace w) @ [ConcatenateVideoclips video_clips] \<or>
          filter is_export_event (trace w')
            = filter is_export_event (trace w) @
                [ConcatenateVideoclips video_clips, WriteVideofileCall (mp4_name e)])"
  using assms
  by (auto simp: export_video_def Let_def split: if_splits)



lemma process_slides_result:
  assumes "process_slides e slides template company_logo tts_lang speed_factor
             parallel_processing w = (r, w')"
  shows "config w' = config w"
    and "filter is_export_event (trace w') = filter is_export_event (trace w)"
    and "mset (completion_order e (length slides)) = mset [0..<length slides] \<Longrightarrow>
         \<not> isl r \<Longrightarrow>
         r = Inr (clips_in_slide_order e (config w) slides template company_logo tts_lang
                    speed_factor)"
    and "list_all (\<lambda>i. built_clip e (config w) slides template company_logo tts_lang
                         speed_factor i = None) [0..<length slides] \<Longrightarrow>
         isl r \<or> r = Inr []"
proof -
  show "config w' = config w"
    using assms process_parallel_result(1) process_sequential_result [OF _ enumerate_slides]
    by (auto simp: process_slides_def split: schedule.splits)
  show "filter is_export_event (trace w') = filter is_export_event (trace w)"
    using assms process_parallel_result(2) process_sequential_result [OF _ enumerate_slides]
    by (auto simp: process_slides_def split: schedule.splits)
  show "r = Inr (clips_in_slide_order e (config w) slides template company_logo tts_lang
                    speed_factor)"
    if "mset (completion_order e (length slides)) = mset [0..<length slides]" "\<not> isl r"
  proof (cases "assembly_schedule parallel_processing slides")
    case (WorkerPool k)
    with assms have "process_parallel e k slides template company_logo tts_lang speed_factor w
        = (r, w')" by (simp add: process_slides_def)
    from process_parallel_result(3) [OF this that(1)] that(2) show ?thesis
      by (simp split: if_splits)
  next
    case Sequential
    with assms have "process_sequential e (int (length slides)) template company_logo tts_lang
        speed_factor (enumerate 0 slides) [] w = (r, w')" by (simp add: process_slides_def)
    from process_sequential_result [OF this enumerate_slides] that(2) show ?thesis
      by (simp add: clips_in_slide_order_def)
  qed
  show "isl r \<or> r = Inr []"
    if a: "list_all (\<lambda>i. built_clip e (config w) slides template company_logo tts_lang
                         speed_factor i = None) [0..<length slides]"
  proof (cases "assembly_schedule parallel_processing slides")
    case (WorkerPool k)
    with assms have "process_parallel e k slides template company_logo tts_lang speed_factor w
        = (r, w')" by (simp add: process_slides_def)
    from process_parallel_result(4) [OF this a] show ?thesis by auto
  next
    case Sequential
    with assms have "process_sequential e (int (length slides)) template company_logo tts_lang
        speed_factor (enumerate 0 slides) [] w = (r, w')" by (simp add: process_slides_def)
    from process_sequential_result [OF this enumerate_slides]
    have "\<not> isl r \<longrightarrow> r = Inr (List.map_filter (built_clip e (config w) slides template
        company_logo tts_lang speed_factor) [0..<length slides])" by simp
    moreover have "List.map_filter (built_clip e (config w) slides template
        company_logo tts_lang speed_factor) xs = []" if "set xs \<subseteq> {0..<length slides}" for xs
      using that a by (induction xs) (auto simp: list_all_iff)
    ultimately show ?thesis by auto
  qed
qed

text \<open>
  The shape of a whole run: it ends early with \<open>None\<close> and without a call of the
  exporter, or it reaches \<open>export_video\<close> with the clips that \<open>process_slides\<close>
  returned.
\<close>

lemma run_cases:
  assumes "create_professional_placement_video e slides company_name template tts_lang
             speed_factor cfg parallel_processing fs = (res, w')"
  shows "(res = None \<and> filter is_export_event (trace w') = []) \<or>
         (\<exists>lg vc w0 w1 r2 w2.
            config w0 = (case cfg of None \<Rightarrow> default_config | Some c \<Rightarrow> c) \<and>
            extract_company_logo e company_name = Inr lg \<and>
            process_slides e slides template lg tts_lang speed_factor parallel_processing w0
              = (Inr vc, w1) \<and>
            filter is_export_event (trace w1) = [] \<and>
            export_video e vc w1 = (r2, w2) \<and> trace w' = trace w2 \<and>
            res = (case r2 of Inl x \<Rightarrow> None | Inr r \<Rightarrow> r))"
proof -
  define c where "c = (case cfg of None \<Rightarrow> default_config | Some c \<Rightarrow> c)"
  define w0 where "w0 = (init_world c fs)
     \<lparr>metrics := (metrics (init_world c fs))\<lparr>total_slides := int (length slides)\<rparr>\<rparr>"
  have t0: "trace w0 = []" "config w0 = c" "trace (init_world c fs) = []"
    by (simp_all add: w0_def init_world_def)
  consider (early) "\<not> video_libs_available e \<or> slides = [] \<or> raises e (ShowProgress 0) 0 \<or>
      isl (extract_company_logo e company_name) \<or> raises e (ShowProgress 1) 0"
    | (run) lg where "video_libs_available e" "slides \<noteq> []" "\<not> raises e (ShowProgress 0) 0"
      "extract_company_logo e company_name = Inr lg" "\<not> raises e (ShowProgress 1) 0"
    by (cases "extract_company_logo e company_name") auto
  then show ?thesis
  proof cases
    case early
    with assms t0 have "trace w' = [] \<and> res = None"
      by (cases "extract_company_logo e company_name")
        (auto simp: create_professional_placement_video_def video_body_def Let_def
          simp flip: c_def w0_def split: if_splits)
    then show ?thesis by simp
  next
    case run
    obtain r1 w1 where p: "process_slides e slides template lg tts_lang speed_factor
        parallel_processing w0 = (r1, w1)"
      by (cases "process_slides e slides template lg tts_lang speed_factor
        parallel_processing w0")
    from process_slides_result(2) [OF p] t0
    have f1: "filter is_export_event (trace w1) = []" by simp
    show ?thesis
    proof (cases r1)
      case (Inl x)
      with assms run p f1 have "filter is_export_event (trace w') = [] \<and> res = None"
        by (auto simp: create_professional_placement_video_def video_body_def Let_def
            simp flip: c_def w0_def)
      then show ?thesis by simp
    next
      case (Inr vc)
      obtain r2 w2 where x: "export_video e vc w1 = (r2, w2)"
        by (cases "export_video e vc w1")
      from assms run p Inr x
      have fin: "(res, w') = (case r2 of Inl x \<Rightarrow> (None, cleanup_temp_files e w2)
          | Inr r \<Rightarrow> (r, w2))"
        by (simp add: create_professional_placement_video_def video_body_def Let_def
            flip: c_def w0_def split: sum.splits)
      then have "trace w' = trace w2" "res = (case r2 of Inl x \<Rightarrow> None | Inr r \<Rightarrow> r)"
        by (cases r2; auto)+
      with p Inr run(4) t0(2) f1 x show ?thesis
        unfolding c_def by blast
    qed
  qed
qed

lemma concatenate_is_export_event:
  "ConcatenateVideoclips cs \<in> set (trace w) \<Longrightarrow>
   ConcatenateVideoclips cs \<in> set (filter is_export_event (trace w))"
  by simp


text \<open>
  C1. Whatever the order in which the futures complete (any arrangement of the slide
  indices), the parallel branch returns the clips of the slides that were built in the
  order of the slides; and in a whole run, parallel or not, the list handed to
  \<open>concatenate_videoclips\<close> is that list.
\<close>

theorem concatenation_in_slide_order:
  assumes "mset (completion_order e (length slides)) = mset [0..<length slides]"
  shows "fst (process_parallel e max_workers slides template company_logo tts_lang
                speed_factor w)
           = (if raises e (ShowProgress 2) 0 then Inl LibraryError
              else Inr (clips_in_slide_order e (config w) slides template company_logo
                          tts_lang speed_factor)) \<and>
         (\<forall>cs. ConcatenateVideoclips cs \<in> set (trace (snd
                 (create_professional_placement_video e slides company_name template tts_lang
                    speed_factor cfg parallel_processing fs))) \<longrightarrow>
            (\<exists>lg. extract_company_logo e company_name = Inr lg \<and>
               cs = clips_in_slide_order e (case cfg of None \<Rightarrow> default_config | Some c \<Rightarrow> c)
                      slides template lg tts_lang speed_factor))"
proof
  show "fst (process_parallel e max_workers slides template company_logo tts_lang
                speed_factor w)
           = (if raises e (ShowProgress 2) 0 then Inl LibraryError
              else Inr (clips_in_slide_order e (config w) slides template company_logo
                          tts_lang speed_factor))"
    using process_parallel_result(3) [OF surjective_pairing assms] .
next
  define w' where "w' = snd (create_professional_placement_video e slides company_name
      template tts_lang speed_factor cfg parallel_processing fs)"
  have run: "create_professional_placement_video e slides company_name template tts_lang
      speed_factor cfg parallel_processing fs
    = (fst (create_professional_placement_video e slides company_name template tts_lang
      speed_factor cfg parallel_processing fs), w')"
    by (simp add: w'_def)
  have "\<exists>lg. extract_company_logo e company_name = Inr lg \<and>
      cs = clips_in_slide_order e (case cfg of None \<Rightarrow> default_config | Some c \<Rightarrow> c)
             slides template lg tts_lang speed_factor"
    if "ConcatenateVideoclips cs \<in> set (trace w')" for cs
  proof -
    from concatenate_is_export_event [OF that]
    have m: "ConcatenateVideoclips cs \<in> set (filter is_export_event (trace w'))" .
    then have "filter is_export_event (trace w') \<noteq> []"
      by (metis empty_iff empty_set)
    with run_cases [OF run]
    obtain lg vc w0 w1 r2 w2
      where c: "config w0 = (case cfg of None \<Rightarrow> default_config | Some c \<Rightarrow> c)"
        and l: "extract_company_logo e company_name = Inr lg"
        and p: "process_slides e slides template lg tts_lang speed_factor parallel_processing w0
                  = (Inr vc, w1)"
        and f: "filter is_export_event (trace w1) = []"
        and x: "export_video e vc w1 = (r2, w2)" and t: "trace w' = trace w2"
      by blast
    from export_video_trace [OF x] f t m have "cs = vc"
      by (auto simp del: set_filter)
    moreover from process_slides_result(3) [OF p assms] c
    have "vc = clips_in_slide_order e (case cfg of None \<Rightarrow> default_config | Some c \<Rightarrow> c)
             slides template lg tts_lang speed_factor" by simp
    ultimately show ?thesis using l by blast
  qed
  then show "\<forall>cs. ConcatenateVideoclips cs \<in> set (trace (snd
                 (create_professional_placement_video e slides company_name template tts_lang
                    speed_factor cfg parallel_processing fs))) \<longrightarrow>
            (\<exists>lg. extract_company_logo e company_name = Inr lg \<and>
               cs = clips_in_slide_order e (case cfg of None \<Rightarrow> default_config | Some c \<Rightarrow> c)
                      slides template lg tts_lang speed_factor)"
    unfolding w'_def by blast
qed

theorem concatenation_in_slide_order_witness:
  "completion_order quiet_env (length four_slides) = [3, 2, 1, 0] \<and>
   (\<exists>cs. ConcatenateVideoclips cs \<in> set (trace (snd
            (create_professional_placement_video quiet_env four_slides ''Acme'' ''minimalist''
               ''en-US'' 1 None True {}))) \<and>
         cs = clips_in_slide_order quiet_env default_config four_slides ''minimalist''
                (LogoImage (200, 200)) ''en-US'' 1 \<and>
         map clip_duration cs = [11, 11, 3, 11])"
proof -
  have o: "completion_order quiet_env (length four_slides) = [3, 2, 1, 0]"
    by code_simp
  have m: "mset (completion_order quiet_env (length four_slides))
      = mset [0..<length four_slides]"
    by (simp add: quiet_env_def)
  have "list_ex (\<lambda>ev. case ev of ConcatenateVideoclips cs \<Rightarrow> True | _ \<Rightarrow> False)
      (trace (snd (create_professional_placement_video quiet_env four_slides ''Acme''
         ''minimalist'' ''en-US'' 1 None True {})))"
    by code_simp
  then obtain ev where ev: "ev \<in> set (trace (snd
      (create_professional_placement_video quiet_env four_slides ''Acme'' ''minimalist''
         ''en-US'' 1 None True {})))"
    "case ev of ConcatenateVideoclips cs \<Rightarrow> True | _ \<Rightarrow> False"
    by (auto simp: list_ex_iff)
  from ev(2) obtain cs where "ev = ConcatenateVideoclips cs"
    by (cases ev) simp_all
  with ev have c: "ConcatenateVideoclips cs \<in> set (trace (snd
      (create_professional_placement_video quiet_env four_slides ''Acme'' ''minimalist''
         ''en-US'' 1 None True {})))"
    by simp
  have l: "extract_company_logo quiet_env ''Acme'' = Inr (LogoImage (200, 200))"
    by (simp add: quiet_env_def)
  from concatenation_in_slide_order [OF m, of 4 "''minimalist''" LogoNone "''en-US''" 1
      "init_world default_config {}" "''Acme''" None True "{}", THEN conjunct2, rule_format, OF c]
  obtain lg where lg: "extract_company_logo quiet_env ''Acme'' = Inr lg"
    and cl: "cs = clips_in_slide_order quiet_env
       (case None of None \<Rightarrow> default_config | Some c \<Rightarrow> c) four_slides ''minimalist'' lg
       ''en-US'' 1"
    by blast
  from lg l have "lg = LogoImage (200, 200)" by simp
  with cl have e: "cs = clips_in_slide_order quiet_env default_config four_slides ''minimalist''
      (LogoImage (200, 200)) ''en-US'' 1"
    by (simp only: option.case)
  have d: "map clip_duration (clips_in_slide_order quiet_env default_config four_slides
      ''minimalist'' (LogoImage (200, 200)) ''en-US'' 1) = [11, 11, 3, 11]"
    by code_simp
  have d': "map clip_duration cs = [11, 11, 3, 11]"
    unfolding e by (rule d)
  show ?thesis
    by (intro conjI exI [of _ cs]) (rule o c e d')+
qed

section \<open>When the exporter is called\<close>

text \<open>
  C3. With an empty slide list the run returns \<open>None\<close> at once: the state is the
  initial one, with the files as they were and an empty trace. When every slide's build
  returns \<open>None\<close> (for the logo that the run extracted), the run returns \<open>None\<close> and
  neither \<open>concatenate_videoclips\<close> nor \<open>write_videofile\<close> is called.
\<close>

theorem exporter_needs_a_clip:
  "create_professional_placement_video e [] company_name template tts_lang speed_factor cfg
     parallel_processing fs
     = (None, init_world (case cfg of None \<Rightarrow> default_config | Some c \<Rightarrow> c) fs) \<and>
   ((case extract_company_logo e company_name of
       Inl x \<Rightarrow> True
     | Inr lg \<Rightarrow>
         list_all (\<lambda>i. built_clip e (case cfg of None \<Rightarrow> default_config | Some c \<Rightarrow> c) slides
                          template lg tts_lang speed_factor i = None) [0..<length slides]) \<longrightarrow>
    fst (create_professional_placement_video e slides company_name template tts_lang
           speed_factor cfg parallel_processing fs) = None \<and>
    filter is_export_event (trace (snd (create_professional_placement_video e slides
           company_name template tts_lang speed_factor cfg parallel_processing fs))) = [])"
proof (intro conjI impI)
  show "create_professional_placement_video e [] company_name template tts_lang speed_factor
      cfg parallel_processing fs
     = (None, init_world (case cfg of None \<Rightarrow> default_config | Some c \<Rightarrow> c) fs)"
    by (simp add: create_professional_placement_video_def Let_def)
next
  assume a: "case extract_company_logo e company_name of
       Inl x \<Rightarrow> True
     | Inr lg \<Rightarrow>
         list_all (\<lambda>i. built_clip e (case cfg of None \<Rightarrow> default_config | Some c \<Rightarrow> c) slides
                          template lg tts_lang speed_factor i = None) [0..<length slides]"
  define res where "res = fst (create_professional_placement_video e slides company_name
      template tts_lang speed_factor cfg parallel_processing fs)"
  define w' where "w' = snd (create_professional_placement_video e slides company_name
      template tts_lang speed_factor cfg parallel_processing fs)"
  have run: "create_professional_placement_video e slides company_name template tts_lang
      speed_factor cfg parallel_processing fs = (res, w')"
    by (simp add: res_def w'_def)
  have "res = None \<and> filter is_export_event (trace w') = []"
    using run_cases [OF run]
  proof
    assume "res = None \<and> filter is_export_event (trace w') = []"
    then show ?thesis .
  next
    assume "\<exists>lg vc w0 w1 r2 w2.
            config w0 = (case cfg of None \<Rightarrow> default_config | Some c \<Rightarrow> c) \<and>
            extract_company_logo e company_name = Inr lg \<and>
            process_slides e slides template lg tts_lang speed_factor parallel_processing w0
              = (Inr vc, w1) \<and>
            filter is_export_event (trace w1) = [] \<and>
            export_video e vc w1 = (r2, w2) \<and> trace w' = trace w2 \<and>
            res = (case r2 of Inl x \<Rightarrow> None | Inr r \<Rightarrow> r)"
    then obtain lg vc w0 w1 r2 w2
      where c: "config w0 = (case cfg of None \<Rightarrow> default_config | Some c \<Rightarrow> c)"
        and l: "extract_company_logo e company_name = Inr lg"
        and p: "process_slides e slides template lg tts_lang speed_factor parallel_processing w0
                  = (Inr vc, w1)"
        and f: "filter is_export_event (trace w1) = []"
        and x: "export_video e vc w1 = (r2, w2)" and t: "trace w' = trace w2"
        and r: "res = (case r2 of Inl x \<Rightarrow> None | Inr r \<Rightarrow> r)"
      by blast
    from a l c have "list_all (\<lambda>i. built_clip e (config w0) slides template lg tts_lang
        speed_factor i = None) [0..<length slides]" by simp
    from process_slides_result(4) [OF p this] have "vc = []" by simp
    with export_video_trace [OF x] have "r2 = Inr None" "w2 = w1" by simp_all
    with r t f show ?thesis by simp
  qed
  then show "fst (create_professional_placement_video e slides company_name template tts_lang
           speed_factor cfg parallel_processing fs) = None"
    and "filter is_export_event (trace (snd (create_professional_placement_video e slides
           company_name template tts_lang speed_factor cfg parallel_processing fs))) = []"
    by (simp_all add: res_def w'_def)
qed

theorem exporter_needs_a_clip_witness:
  "list_all (\<lambda>i. built_clip failing_save_env default_config two_slides ''corporate''
                    (LogoImage (200, 200)) ''en-US'' 1 i = None) [0..<length two_slides] \<and>
   fst (create_professional_placement_video failing_save_env two_slides ''Acme'' ''corporate''
          ''en-US'' 1 None True {}) = None \<and>
   filter is_export_event (trace (snd (create_professional_placement_video failing_save_env
          two_slides ''Acme'' ''corporate'' ''en-US'' 1 None True {}))) = []"
proof -
  have o: "outer_steps_raise failing_save_env (config (init_world default_config {})) n 2" for n
    by (simp add: outer_steps_raise_def failing_save_env_def quiet_env_def)
  have b: "built_clip failing_save_env default_config two_slides ''corporate''
      (LogoImage (200, 200)) ''en-US'' 1 i = None" for i
    using create_outcome [of failing_save_env "init_world default_config {}" "int i + 1" 2
        "two_slides ! i" "''corporate''" "LogoImage (200, 200)" "''en-US''" 1] o
    by (simp add: built_clip_def two_slides_def)
  then have a: "list_all (\<lambda>i. built_clip failing_save_env default_config two_slides
      ''corporate'' (LogoImage (200, 200)) ''en-US'' 1 i = None) [0..<length two_slides]"
    by (simp add: list_all_iff)
  have l: "extract_company_logo failing_save_env ''Acme'' = Inr (LogoImage (200, 200))"
    by (simp add: failing_save_env_def quiet_env_def)
  from exporter_needs_a_clip [of failing_save_env "''Acme''" "''corporate''" "''en-US''" 1
      None True "{}" two_slides, THEN conjunct2] a l
  have "fst (create_professional_placement_video failing_save_env two_slides ''Acme''
          ''corporate'' ''en-US'' 1 None True {}) = None \<and>
     filter is_export_event (trace (snd (create_professional_placement_video failing_save_env
          two_slides ''Acme'' ''corporate'' ''en-US'' 1 None True {}))) = []"
    by simp
  with a show ?thesis by blast
qed

section \<open>The choice between the pool and the sequential loop\<close>




section \<open>A failing export\<close>

text \<open>
  C6 at a failing input: two slides, every step succeeds up to \<open>write_videofile\<close>,
  which raises. The run returns \<open>None\<close> and the registered files (slide images,
  narration audio) are gone, but the output file made by \<open>NamedTemporaryFile\<close> is
  still there: it was never put into \<open>temp_files\<close>.
\<close>

theorem failing_export_leaves_output_file:
  "fst (create_professional_placement_video failing_export_env two_slides ''Acme''
          ''minimalist'' ''en-US'' 1 None True {}) = None \<and>
   files (snd (create_professional_placement_video failing_export_env two_slides ''Acme''
          ''minimalist'' ''en-US'' 1 None True {})) = {''out.mp4''} \<and>
   temp_files (snd (create_professional_placement_video failing_export_env two_slides ''Acme''
          ''minimalist'' ''en-US'' 1 None True {})) = [] \<and>
   filter is_export_event (trace (snd (create_professional_placement_video failing_export_env
          two_slides ''Acme'' ''minimalist'' ''en-US'' 1 None True {})))
     = [ConcatenateVideoclips (clips_in_slide_order failing_export_env default_config
          two_slides ''minimalist'' (LogoImage (200, 200)) ''en-US'' 1),
        WriteVideofileCall ''out.mp4'']"
  by code_simp

end
